theory Spec2Isabelle
  imports Complex_Main "HOL-Library.AList"
begin

section \<open>Data model\<close>

text \<open>
  The puzzle store (client) and the session server share the shape of a piece state:
  \<^verbatim>\<open>{ id, position: [x, y, z], groupId, isSolved }\<close>.
  Coordinates are JavaScript numbers; they are modelled as reals, so the rounding of
  IEEE doubles is abstracted away. Identifiers are strings.
\<close>

type_synonym vec3 = "real \<times> real \<times> real"

record PieceState =
  id_piece :: string
  position :: vec3
  groupId :: string
  isSolved :: bool

text \<open>
  A \<^verbatim>\<open>Record<string, PieceState>\<close> is an association list in property order:
  assigning to a key that is present keeps its place, assigning to a new key appends
  (the keys of the program are \<^verbatim>\<open>region_N\<close> and \<^verbatim>\<open>fb_N\<close>, which JavaScript keeps in
  insertion order). \<^verbatim>\<open>obj[k]\<close> is \<^const>\<open>map_of\<close>, \<^verbatim>\<open>obj[k] = v\<close> is
  \<^const>\<open>AList.update\<close>, \<^verbatim>\<open>Object.values(obj)\<close> is \<open>values_of\<close>.
\<close>

type_synonym states = "(string \<times> PieceState) list"

definition values_of :: "states \<Rightarrow> PieceState list" where
  "values_of ps = map snd ps"

text \<open>
  The records are plain objects (\<^verbatim>\<open>{}\<close>), so \<^verbatim>\<open>obj[k]\<close> also answers to the names that a
  plain object inherits from \<^verbatim>\<open>Object.prototype\<close>: for such a name with no entry of its own
  the lookup gives the inherited function (for \<^verbatim>\<open>__proto__\<close> the prototype object itself),
  which is truthy and has neither \<^verbatim>\<open>id\<close> nor \<^verbatim>\<open>groupId\<close>. The two handlers that look up
  an id taken from a message (\<^verbatim>\<open>MOVE_PIECE\<close> on the server, \<^verbatim>\<open>PIECE_MOVED\<close> on the client)
  are modelled with this three-way lookup. Every other lookup of the program is by the id
  of a region (\<^verbatim>\<open>region_N\<close>, \<^verbatim>\<open>fb_N\<close>) or of a piece held in the mirror, and is
  \<^const>\<open>map_of\<close>.
\<close>

definition Object_prototype :: "string list" where
  "Object_prototype =
     [''constructor'', ''__defineGetter__'', ''__defineSetter__'', ''hasOwnProperty'',
      ''__lookupGetter__'', ''__lookupSetter__'', ''isPrototypeOf'', ''propertyIsEnumerable'',
      ''toString'', ''valueOf'', ''__proto__'', ''toLocaleString'']"

datatype property = Own PieceState | Inherited | Absent

definition get_property :: "string list \<Rightarrow> states \<Rightarrow> string \<Rightarrow> property" where
  "get_property inherited ps k =
     (case map_of ps k of
        Some p \<Rightarrow> Own p
      | None \<Rightarrow> if k \<in> set inherited then Inherited else Absent)"

text \<open>\<^verbatim>\<open>[p[0] + o[0], p[1] + o[1], p[2] + o[2]]\<close>\<close>

fun translate :: "vec3 \<Rightarrow> vec3 \<Rightarrow> vec3" where
  "translate (p0, p1, p2) (o0, o1, o2) = (p0 + o0, p1 + o1, p2 + o2)"

text \<open>\<^verbatim>\<open>new Set(Object.values(states).map(p => p.groupId)).size\<close>\<close>

definition uniqueGroups :: "states \<Rightarrow> string set" where
  "uniqueGroups ps = set (map groupId (values_of ps))"

definition numGroups :: "states \<Rightarrow> nat" where
  "numGroups ps = card (uniqueGroups ps)"

text \<open>
  JavaScript truthiness of a \<^verbatim>\<open>string | null\<close>: \<^verbatim>\<open>null\<close> and the empty string are falsy.
\<close>

fun truthy :: "string option \<Rightarrow> bool" where
  "truthy None = False"
| "truthy (Some s) = (s \<noteq> [])"

section \<open>The session server\<close>

text \<open>
  A connection is a socket object, compared by identity (\<open>connId\<close>), with its
  \<^verbatim>\<open>readyState\<close>; \<^verbatim>\<open>WebSocket.OPEN\<close> is 1. The handlers below are the bodies that run once
  the connection has joined a session (\<^verbatim>\<open>currentSessionId\<close> set and the session found);
  they take the session and return it updated, with the list of messages sent, each
  paired with the connection it is sent to, in sending order.
\<close>

record Conn =
  connId :: nat
  readyState :: nat

definition OPEN :: nat where
  "OPEN = 1"

datatype ServerMessage =
    PIECE_MOVED string vec3 "string option"
  | GROUP_MERGED string string vec3
  | GAME_COMPLETED

datatype ClientMessage =
    MOVE_PIECE string vec3
  | MERGE_GROUP string string vec3

record Session =
  players :: "Conn list"
  pieceStates :: states

text \<open>
  The server's only write to an inherited object is the \<^verbatim>\<open>.position = msg.position\<close> of
  this handler. When the id is \<^verbatim>\<open>__proto__\<close> the object written to is \<^verbatim>\<open>Object.prototype\<close>
  itself, and from then on every plain object inherits the name \<^verbatim>\<open>position\<close> as well. The
  flag \<open>polluted\<close> says whether that has happened; the handler takes it and returns it
  updated.
\<close>

definition inherited_names :: "bool \<Rightarrow> string list" where
  "inherited_names polluted = Object_prototype @ (if polluted then [''position''] else [])"

text \<open>
  \<^verbatim>\<open>if (!session.pieceStates[msg.pieceId]) session.pieceStates[msg.pieceId] = {...}
   else session.pieceStates[msg.pieceId].position = msg.position\<close>
  With an inherited name and no entry of its own the test fails, the else branch writes
  \<^verbatim>\<open>position\<close> on the inherited object, and the session's entries stay as they are.
\<close>

definition move_piece :: "bool \<Rightarrow> string \<Rightarrow> vec3 \<Rightarrow> states \<Rightarrow> states" where
  "move_piece polluted pieceId pos ps =
     (case get_property (inherited_names polluted) ps pieceId of
        Absent \<Rightarrow> AList.update pieceId
                   \<lparr>id_piece = pieceId, position = pos, groupId = pieceId, isSolved = False\<rparr> ps
      | Own p \<Rightarrow> AList.update pieceId (p\<lparr>position := pos\<rparr>) ps
      | Inherited \<Rightarrow> ps)"

definition pollutes :: "bool \<Rightarrow> string \<Rightarrow> states \<Rightarrow> bool" where
  "pollutes polluted pieceId ps \<longleftrightarrow>
     get_property (inherited_names polluted) ps pieceId = Inherited \<and> pieceId = ''__proto__''"

text \<open>
  The group id that the broadcast reads back after the update,
  \<^verbatim>\<open>session.pieceStates[msg.pieceId].groupId\<close>: \<^verbatim>\<open>undefined\<close> on an inherited object, and
  then \<^verbatim>\<open>JSON.stringify\<close> leaves the field out of the message.
\<close>

definition group_of :: "bool \<Rightarrow> states \<Rightarrow> string \<Rightarrow> string option" where
  "group_of polluted ps pieceId =
     (case get_property (inherited_names polluted) ps pieceId of
        Own p \<Rightarrow> Some (groupId p)
      | Inherited \<Rightarrow> None
      | Absent \<Rightarrow> None)"

definition handle_MOVE_PIECE ::
  "bool \<Rightarrow> Conn \<Rightarrow> string \<Rightarrow> vec3 \<Rightarrow> Session
   \<Rightarrow> Session \<times> bool \<times> (nat \<times> ServerMessage) list" where
  "handle_MOVE_PIECE polluted ws pieceId pos session =
     (let ps' = move_piece polluted pieceId pos (pieceStates session);
          polluted' = (polluted \<or> pollutes polluted pieceId (pieceStates session))
      in (session\<lparr>pieceStates := ps'\<rparr>,
          polluted',
          map (\<lambda>client. (connId client, PIECE_MOVED pieceId pos (group_of polluted' ps' pieceId)))
            (filter (\<lambda>client. connId client \<noteq> connId ws \<and> readyState client = OPEN)
               (players session))))"

text \<open>
  \<^verbatim>\<open>Object.values(session.pieceStates).forEach(p => {
       if (p.groupId === sourceGroupId) { p.groupId = targetGroupId; p.position = [...] } })\<close>
\<close>

definition relabel :: "string \<Rightarrow> string \<Rightarrow> vec3 \<Rightarrow> PieceState \<Rightarrow> PieceState" where
  "relabel sourceGroupId targetGroupId alignOffset p =
     (if groupId p = sourceGroupId
      then p\<lparr>groupId := targetGroupId, position := translate (position p) alignOffset\<rparr>
      else p)"

definition merge_group :: "string \<Rightarrow> string \<Rightarrow> vec3 \<Rightarrow> states \<Rightarrow> states" where
  "merge_group sourceGroupId targetGroupId alignOffset ps =
     map (\<lambda>(k, p). (k, relabel sourceGroupId targetGroupId alignOffset p)) ps"

definition handle_MERGE_GROUP ::
  "Conn \<Rightarrow> string \<Rightarrow> string \<Rightarrow> vec3 \<Rightarrow> Session \<Rightarrow> Session \<times> (nat \<times> ServerMessage) list" where
  "handle_MERGE_GROUP ws sourceGroupId targetGroupId alignOffset session =
     (session\<lparr>pieceStates :=
        merge_group sourceGroupId targetGroupId alignOffset (pieceStates session)\<rparr>,
      map (\<lambda>client. (connId client, GROUP_MERGED sourceGroupId targetGroupId alignOffset))
        (filter (\<lambda>client. readyState client = OPEN) (players session)))"

text \<open>A run of merge intents, applied in the order the server receives them.\<close>

fun merge_all :: "(string \<times> string \<times> vec3) list \<Rightarrow> states \<Rightarrow> states" where
  "merge_all [] ps = ps"
| "merge_all ((s, t, off) # ms) ps = merge_all ms (merge_group s t off ps)"

section \<open>The client store\<close>

text \<open>
  A region is the immutable descriptor of a piece; the store reads its id and its
  centroid \<^verbatim>\<open>center: {x, y}\<close> only. The store state holds the fields the handlers below
  read and write. \<^verbatim>\<open>draggedPieceId\<close> and \<^verbatim>\<open>snapCandidateGroupId\<close> are
  \<^verbatim>\<open>string | null\<close>.
\<close>

record Region =
  id_region :: string
  center_x :: real
  center_y :: real

record SessionConfig =
  randomFactor :: real
  scatterSeed :: "real list"

record StoreState =
  puzzleRegions :: "Region list"
  pieceStates_c :: states
  draggedPieceId :: "string option"
  snapCandidateGroupId :: "string option"

text \<open>
  What the program raises is a value: \<open>TypeError\<close> is the property access on
  \<^verbatim>\<open>undefined\<close> (\<^verbatim>\<open>newStates[p.id].isSolved = true\<close> when no entry has that key). A
  handler that raises never reaches \<^verbatim>\<open>set\<close>; the pieces it had already mutated in place
  before raising are not followed, the result is the error alone.
  \<open>NotANumber\<close> stands for a scattered position computed from an empty seed: JavaScript
  stores \<^verbatim>\<open>NaN\<close> coordinates there, which the reals do not have.
  \<open>NotAPieceState\<close> stands for a mirror that JavaScript goes on with although it is no
  longer a \<^verbatim>\<open>Record<string, PieceState>\<close>: it has an entry without \<^verbatim>\<open>id\<close> or without
  \<^verbatim>\<open>groupId\<close> (or, for the key \<^verbatim>\<open>__proto__\<close>, a prototype of that shape), which the record
  type does not have.
\<close>

datatype error = TypeError | NotANumber | NotAPieceState

definition pos0 :: "vec3 \<Rightarrow> real" where "pos0 v = fst v"
definition pos2 :: "vec3 \<Rightarrow> real" where "pos2 v = snd (snd v)"

definition find_region :: "Region list \<Rightarrow> string \<Rightarrow> Region option" where
  "find_region regions k = find (\<lambda>r. id_region r = k) regions"

subsection \<open>Messages from the server\<close>

text \<open>
  \<^verbatim>\<open>case 'PIECE_MOVED':
     if (state.draggedPieceId === msg.pieceId) return;
     ... if (newStates[msg.pieceId]) newStates[msg.pieceId] =
           { ...newStates[msg.pieceId], position: msg.position, groupId: msg.groupId }\<close>
  (the loop over the group before it has an empty body). The message's \<^verbatim>\<open>groupId\<close> is
  missing when the server read it from an inherited object. The test is also truthy for an
  inherited name that the mirror does not hold: the entry stored then is
  \<^verbatim>\<open>{ position, groupId }\<close>, the inherited function spreading to nothing. The client never
  adds a name to \<^verbatim>\<open>Object.prototype\<close> in a handler that returns, so the inherited names
  are those of \<open>Object_prototype\<close>.
\<close>

definition on_PIECE_MOVED ::
  "string \<Rightarrow> vec3 \<Rightarrow> string option \<Rightarrow> StoreState \<Rightarrow> error + StoreState" where
  "on_PIECE_MOVED pieceId pos gid state =
     (if draggedPieceId state = Some pieceId then Inr state
      else case get_property Object_prototype (pieceStates_c state) pieceId of
             Absent \<Rightarrow> Inr state
           | Inherited \<Rightarrow> Inl NotAPieceState
           | Own p \<Rightarrow>
               (case gid of
                  None \<Rightarrow> Inl NotAPieceState
                | Some g \<Rightarrow>
                    Inr (state\<lparr>pieceStates_c :=
                           AList.update pieceId (p\<lparr>position := pos, groupId := g\<rparr>)
                             (pieceStates_c state)\<rparr>)))"

text \<open>
  \<^verbatim>\<open>sourcePieces.forEach(p => { newStates[p.id] = { ...p, groupId: target,
       position: [p.position[0] + off[0], p.position[1] + off[1], p.position[2] + off[2]] } })\<close>
  The same loop applies the local merge in \<^verbatim>\<open>dragEnd\<close>.
\<close>

fun assign_merged :: "string \<Rightarrow> vec3 \<Rightarrow> PieceState list \<Rightarrow> states \<Rightarrow> states" where
  "assign_merged t off [] newStates = newStates"
| "assign_merged t off (p # sourcePieces) newStates =
     assign_merged t off sourcePieces
       (AList.update (id_piece p)
          (p\<lparr>groupId := t, position := translate (position p) off\<rparr>) newStates)"

text \<open>\<^verbatim>\<open>q.isSolved = true; q.position[1] = 0\<close>\<close>

definition snap_solved :: "PieceState \<Rightarrow> PieceState" where
  "snap_solved q = q\<lparr>isSolved := True, position := (pos0 (position q), 0, pos2 (position q))\<rparr>"

text \<open>
  \<^verbatim>\<open>Object.values(newStates).forEach(p => {
       newStates[p.id].isSolved = true; newStates[p.id].position[1] = 0 })\<close>
  over the array of values taken before the loop.
\<close>

fun complete_all :: "PieceState list \<Rightarrow> states \<Rightarrow> error + states" where
  "complete_all [] newStates = Inr newStates"
| "complete_all (p # rest) newStates =
     (case map_of newStates (id_piece p) of
        None \<Rightarrow> Inl TypeError
      | Some q \<Rightarrow> complete_all rest (AList.update (id_piece p) (snap_solved q) newStates))"

definition on_GROUP_MERGED ::
  "string \<Rightarrow> string \<Rightarrow> vec3 \<Rightarrow> StoreState \<Rightarrow> error + StoreState" where
  "on_GROUP_MERGED sourceGroupId targetGroupId alignOffset state =
     (let sourcePieces = filter (\<lambda>p. groupId p = sourceGroupId)
                           (values_of (pieceStates_c state));
          newStates = assign_merged targetGroupId alignOffset sourcePieces (pieceStates_c state)
      in if numGroups newStates = 1
         then (case complete_all (values_of newStates) newStates of
                 Inl e \<Rightarrow> Inl e
               | Inr solved \<Rightarrow> Inr (state\<lparr>pieceStates_c := solved\<rparr>))
         else Inr (state\<lparr>pieceStates_c := newStates\<rparr>))"


text \<open>A run of \<^verbatim>\<open>GROUP_MERGED\<close> messages, followed as long as no handler raises.\<close>

fun on_GROUP_MERGED_all ::
  "(string \<times> string \<times> vec3) list \<Rightarrow> StoreState \<Rightarrow> error + StoreState" where
  "on_GROUP_MERGED_all [] state = Inr state"
| "on_GROUP_MERGED_all ((s, t, off) # ms) state =
     (case on_GROUP_MERGED s t off state of
        Inl e \<Rightarrow> Inl e
      | Inr state' \<Rightarrow> on_GROUP_MERGED_all ms state')"

subsection \<open>Initial placement\<close>

text \<open>
  \<^verbatim>\<open>const pseudoRandom = (offset) => {
       const x = Math.sin(config.scatterSeed[index % config.scatterSeed.length] + offset) * 10000;
       return x - Math.floor(x); }\<close>
  The caller below never asks for it with an empty seed.
\<close>

definition pseudoRandom :: "real list \<Rightarrow> nat \<Rightarrow> real \<Rightarrow> real" where
  "pseudoRandom seed index offset =
     (let x = sin (seed ! (index mod length seed) + offset) * 10000
      in x - of_int \<lfloor>x\<rfloor>)"

definition scatter_position :: "real list \<Rightarrow> nat \<Rightarrow> vec3" where
  "scatter_position seed index =
     (let range = 60;
          scatterX = (pseudoRandom seed index 1 - 0.5) * range;
          scatterY = 10 + pseudoRandom seed index 2 * 15;
          scatterZ = (pseudoRandom seed index 3 - 0.5) * range
      in (scatterX, scatterY, scatterZ))"

text \<open>
  \<^verbatim>\<open>regions.forEach((r, index) => {
       if (hasServerState && currentServerStates[r.id]) states[r.id] = currentServerStates[r.id];
       else states[r.id] = { id: r.id, groupId: r.id, position: [scatterX, scatterY, scatterZ],
                             isSolved: false } })\<close>
\<close>

fun place_regions ::
  "SessionConfig \<Rightarrow> states \<Rightarrow> bool \<Rightarrow> nat \<Rightarrow> Region list \<Rightarrow> states \<Rightarrow> error + states" where
  "place_regions config currentServerStates hasServerState index [] states = Inr states"
| "place_regions config currentServerStates hasServerState index (r # rest) states =
     (case (if hasServerState then map_of currentServerStates (id_region r) else None) of
        Some s \<Rightarrow>
          place_regions config currentServerStates hasServerState (Suc index) rest
            (AList.update (id_region r) s states)
      | None \<Rightarrow>
          if scatterSeed config = [] then Inl NotANumber
          else place_regions config currentServerStates hasServerState (Suc index) rest
                 (AList.update (id_region r)
                    \<lparr>id_piece = id_region r,
                     position = scatter_position (scatterSeed config) index,
                     groupId = id_region r, isSolved = False\<rparr> states))"

definition setPuzzleRegions ::
  "Region list \<Rightarrow> SessionConfig \<Rightarrow> states \<Rightarrow> StoreState \<Rightarrow> error + StoreState" where
  "setPuzzleRegions regions config currentServerStates state =
     (let hasServerState = length (map fst currentServerStates) > 0
      in case place_regions config currentServerStates hasServerState 0 regions [] of
           Inl e \<Rightarrow> Inl e
         | Inr states \<Rightarrow> Inr (state\<lparr>puzzleRegions := regions, pieceStates_c := states\<rparr>))"

subsection \<open>The drag gesture\<close>

text \<open>
  The drag actions return the new state with the messages handed to
  \<^verbatim>\<open>socketService.send\<close>, in order. An action that raises gives the error alone.
\<close>

definition dragStart :: "string \<Rightarrow> StoreState \<Rightarrow> StoreState" where
  "dragStart pid state = state\<lparr>draggedPieceId := Some pid\<rparr>"

text \<open>
  \<^verbatim>\<open>Object.values(newStates).forEach(piece => {
       if (piece.groupId === activeGroupId) {
         const newPos = [piece.position[0] + delta[0], ...];
         newStates[piece.id] = { ...piece, position: newPos };
         socketService.send({ type: 'MOVE_PIECE', pieceId: piece.id, position: newPos }) } })\<close>
\<close>

fun move_active ::
  "string \<Rightarrow> vec3 \<Rightarrow> PieceState list \<Rightarrow> states \<Rightarrow> ClientMessage list
   \<Rightarrow> states \<times> ClientMessage list" where
  "move_active activeGroupId delta [] newStates sent = (newStates, sent)"
| "move_active activeGroupId delta (piece # rest) newStates sent =
     (if groupId piece = activeGroupId
      then let newPos = translate (position piece) delta
           in move_active activeGroupId delta rest
                (AList.update (id_piece piece) (piece\<lparr>position := newPos\<rparr>) newStates)
                (sent @ [MOVE_PIECE (id_piece piece) newPos])
      else move_active activeGroupId delta rest newStates sent)"

definition SNAP_DISTANCE :: real where
  "SNAP_DISTANCE = 4.0"

text \<open>
  \<^verbatim>\<open>Math.sqrt(Math.pow(currentDiffX - idealDiffX, 2) + Math.pow(currentDiffZ - idealDiffY, 2))\<close>
\<close>

definition snap_dist :: "Region \<Rightarrow> Region \<Rightarrow> PieceState \<Rightarrow> PieceState \<Rightarrow> real" where
  "snap_dist regionMover regionTarget mover target =
     (let idealDiffX = center_x regionMover - center_x regionTarget;
          idealDiffY = center_y regionMover - center_y regionTarget;
          currentDiffX = pos0 (position mover) - pos0 (position target);
          currentDiffZ = pos2 (position mover) - pos2 (position target)
      in sqrt ((currentDiffX - idealDiffX)\<^sup>2 + (currentDiffZ - idealDiffY)\<^sup>2))"

text \<open>
  The inner loop over the targets: \<open>Some g\<close> when it assigns \<^verbatim>\<open>snapCandidate = target.groupId\<close>
  and breaks, \<open>None\<close> when it runs to its end without assigning.
\<close>

fun scan_targets ::
  "Region list \<Rightarrow> Region \<Rightarrow> PieceState \<Rightarrow> PieceState list \<Rightarrow> string option" where
  "scan_targets regions regionMover mover [] = None"
| "scan_targets regions regionMover mover (target # rest) =
     (case find_region regions (id_piece target) of
        None \<Rightarrow> scan_targets regions regionMover mover rest
      | Some regionTarget \<Rightarrow>
          if snap_dist regionMover regionTarget mover target < SNAP_DISTANCE
          then Some (groupId target)
          else scan_targets regions regionMover mover rest)"

text \<open>
  The outer loop over the movers, with \<^verbatim>\<open>if (snapCandidate) break;\<close> at the head of its body
  and \<^verbatim>\<open>if (!regionMover) continue;\<close> after the lookup.
\<close>

fun scan_movers ::
  "Region list \<Rightarrow> PieceState list \<Rightarrow> PieceState list \<Rightarrow> string option \<Rightarrow> string option" where
  "scan_movers regions [] otherPieces snapCandidate = snapCandidate"
| "scan_movers regions (mover # rest) otherPieces snapCandidate =
     (if truthy snapCandidate then snapCandidate
      else case find_region regions (id_piece mover) of
             None \<Rightarrow> scan_movers regions rest otherPieces snapCandidate
           | Some regionMover \<Rightarrow>
               (case scan_targets regions regionMover mover otherPieces of
                  None \<Rightarrow> scan_movers regions rest otherPieces snapCandidate
                | Some g \<Rightarrow> scan_movers regions rest otherPieces (Some g)))"

definition dragMove :: "vec3 \<Rightarrow> StoreState \<Rightarrow> error + StoreState \<times> ClientMessage list" where
  "dragMove delta state =
     (case draggedPieceId state of
        None \<Rightarrow> Inr (state, [])
      | Some d \<Rightarrow>
          if d = [] then Inr (state, [])
          else (case map_of (pieceStates_c state) d of
                  None \<Rightarrow> Inl TypeError
                | Some dragged \<Rightarrow>
                    let activeGroupId = groupId dragged;
                        (newStates, sent) =
                           move_active activeGroupId delta (values_of (pieceStates_c state))
                             (pieceStates_c state) [];
                        movingPieces = filter (\<lambda>p. groupId p = activeGroupId) (values_of newStates);
                        otherPieces = filter (\<lambda>p. groupId p \<noteq> activeGroupId) (values_of newStates);
                        snapCandidate =
                           scan_movers (puzzleRegions state) movingPieces otherPieces None
                    in Inr (state\<lparr>pieceStates_c := newStates,
                                  snapCandidateGroupId := snapCandidate\<rparr>, sent)))"






section \<open>Notions used to state the properties\<close>

text \<open>
  Every entry of a mirror built by the program is stored under its own piece id, each key
  once.
\<close>

definition keyed_by_id :: "states \<Rightarrow> bool" where
  "keyed_by_id ps \<longleftrightarrow> distinct (map fst ps) \<and> list_all (\<lambda>(k, p). id_piece p = k) ps"

text \<open>
  The completion transition on a mirror: every piece marked solved and put on the floor.
\<close>

definition completion :: "states \<Rightarrow> states" where
  "completion ns = map (\<lambda>(k, p). (k, snap_solved p)) ns"

text \<open>
  The state that \<^verbatim>\<open>setPuzzleRegions\<close> stores for the region at an index: the server's entry
  for the region's id when there is one, the scattered spawn state otherwise.
\<close>

definition initial_state :: "SessionConfig \<Rightarrow> states \<Rightarrow> nat \<Rightarrow> Region \<Rightarrow> PieceState" where
  "initial_state config server index r =
     (case map_of server (id_region r) of
        Some s \<Rightarrow> s
      | None \<Rightarrow> \<lparr>id_piece = id_region r,
                 position = scatter_position (scatterSeed config) index,
                 groupId = id_region r, isSolved = False\<rparr>)"



subsection \<open>The snap rule as the specification words it\<close>

text \<open>
  The snap error of a pair is the Euclidean distance between its placed offset (the
  horizontal coordinates only) and its ideal offset (between the centroids of the two
  regions); a pair qualifies when both regions are known and the error is below 4. The
  candidate is sought among the pairs in the order of the movers, then of the targets.
\<close>

definition euclid2 :: "real \<times> real \<Rightarrow> real \<times> real \<Rightarrow> real" where
  "euclid2 a b = sqrt ((fst a - fst b)\<^sup>2 + (snd a - snd b)\<^sup>2)"

definition placed_offset :: "PieceState \<Rightarrow> PieceState \<Rightarrow> real \<times> real" where
  "placed_offset mover target =
     (pos0 (position mover) - pos0 (position target),
      pos2 (position mover) - pos2 (position target))"

definition ideal_offset :: "Region \<Rightarrow> Region \<Rightarrow> real \<times> real" where
  "ideal_offset regionMover regionTarget =
     (center_x regionMover - center_x regionTarget,
      center_y regionMover - center_y regionTarget)"

definition snap_pair :: "Region list \<Rightarrow> PieceState \<Rightarrow> PieceState \<Rightarrow> bool" where
  "snap_pair regions mover target =
     (case (find_region regions (id_piece mover), find_region regions (id_piece target)) of
        (Some rm, Some rt) \<Rightarrow> euclid2 (placed_offset mover target) (ideal_offset rm rt) < 4
      | _ \<Rightarrow> False)"

definition first_snap_pair ::
  "Region list \<Rightarrow> PieceState list \<Rightarrow> PieceState list \<Rightarrow> (PieceState \<times> PieceState) option" where
  "first_snap_pair regions movers targets =
     find (\<lambda>(m, t). snap_pair regions m t) (List.product movers targets)"

section \<open>Sample states\<close>

text \<open>Four pieces, each its own group.\<close>

definition four_pieces :: states where
  "four_pieces =
     [(''P1'', \<lparr>id_piece = ''P1'', position = (0, 12, 0), groupId = ''P1'', isSolved = False\<rparr>),
      (''P2'', \<lparr>id_piece = ''P2'', position = (5, 11, 3), groupId = ''P2'', isSolved = False\<rparr>),
      (''P3'', \<lparr>id_piece = ''P3'', position = (-7, 20, 1), groupId = ''P3'', isSolved = False\<rparr>),
      (''P4'', \<lparr>id_piece = ''P4'', position = (9, 15, -4), groupId = ''P4'', isSolved = False\<rparr>)]"

definition four_store :: StoreState where
  "four_store = \<lparr>puzzleRegions = [], pieceStates_c = four_pieces,
                 draggedPieceId = None, snapCandidateGroupId = None\<rparr>"

text \<open>A lone piece, as a one-piece puzzle starts.\<close>

definition one_piece :: states where
  "one_piece =
     [(''P1'', \<lparr>id_piece = ''P1'', position = (3, 12, -2), groupId = ''P1'', isSolved = False\<rparr>)]"

definition one_store :: StoreState where
  "one_store = \<lparr>puzzleRegions = [], pieceStates_c = one_piece,
                draggedPieceId = None, snapCandidateGroupId = None\<rparr>"

text \<open>A session of two open connections over the four pieces.\<close>

definition two_players :: Session where
  "two_players = \<lparr>players = [\<lparr>connId = 1, readyState = OPEN\<rparr>, \<lparr>connId = 2, readyState = OPEN\<rparr>],
                  pieceStates = four_pieces\<rparr>"

text \<open>A client dragging piece P1, whose group also holds piece P2.\<close>

definition dragging_store :: StoreState where
  "dragging_store =
     \<lparr>puzzleRegions = [],
      pieceStates_c =
        [(''P1'', \<lparr>id_piece = ''P1'', position = (0, 12, 0), groupId = ''P1'', isSolved = False\<rparr>),
         (''P2'', \<lparr>id_piece = ''P2'', position = (1, 12, 0), groupId = ''P1'', isSolved = False\<rparr>)],
      draggedPieceId = Some ''P1'', snapCandidateGroupId = None\<rparr>"

text \<open>
  Two regions with centroids at offset \<open>(2, 0)\<close>, a configuration with a two-element seed,
  server states that hold piece P2 only, and a store before a game.
\<close>

definition two_regions :: "Region list" where
  "two_regions = [\<lparr>id_region = ''P1'', center_x = 2, center_y = 0\<rparr>,
                  \<lparr>id_region = ''P2'', center_x = 0, center_y = 0\<rparr>]"

definition sample_config :: SessionConfig where
  "sample_config = \<lparr>randomFactor = 1, scatterSeed = [7, 42]\<rparr>"

definition server_states :: states where
  "server_states =
     [(''P2'', \<lparr>id_piece = ''P2'', position = (4, 0, 9), groupId = ''P2'', isSolved = False\<rparr>)]"

definition empty_store :: StoreState where
  "empty_store = \<lparr>puzzleRegions = [], pieceStates_c = [],
                  draggedPieceId = None, snapCandidateGroupId = None\<rparr>"

text \<open>
  Piece P1 at horizontal offset \<open>(x, 0)\<close> from piece P2, their centroids at offset
  \<open>(2, 0)\<close>, P1 being dragged; the two pieces are at different heights.
\<close>

definition snap_store :: "real \<Rightarrow> StoreState" where
  "snap_store x =
     \<lparr>puzzleRegions = [\<lparr>id_region = ''P1'', center_x = 2, center_y = 0\<rparr>,
                       \<lparr>id_region = ''P2'', center_x = 0, center_y = 0\<rparr>],
      pieceStates_c =
        [(''P1'', \<lparr>id_piece = ''P1'', position = (x, 12, 0), groupId = ''P1'', isSolved = False\<rparr>),
         (''P2'', \<lparr>id_piece = ''P2'', position = (0, 15, 0), groupId = ''P2'', isSolved = False\<rparr>)],
      draggedPieceId = Some ''P1'', snapCandidateGroupId = None\<rparr>"



section \<open>Group counting\<close>

lemma groupId_relabel:
  "groupId (relabel s t off p) = (if groupId p = s then t else groupId p)"
  by (simp add: relabel_def)

lemma groups_merge_group:
  "map groupId (values_of (merge_group s t off ps)) =
   map (\<lambda>g. if g = s then t else g) (map groupId (values_of ps))"
  by (simp add: values_of_def merge_group_def split_beta groupId_relabel comp_def)

lemma uniqueGroups_merge_group:
  "uniqueGroups (merge_group s t off ps) = (\<lambda>g. if g = s then t else g) ` uniqueGroups ps"
  by (simp only: uniqueGroups_def groups_merge_group set_map)

lemma finite_uniqueGroups: "finite (uniqueGroups ps)"
  by (simp add: uniqueGroups_def)

lemma relabel_image_present:
  assumes "s \<in> G" "t \<in> G" "s \<noteq> t"
  shows "(\<lambda>g. if g = s then t else g) ` G = G - {s}"
proof
  show "(\<lambda>g. if g = s then t else g) ` G \<subseteq> G - {s}"
    using assms by (auto split: if_splits)
  show "G - {s} \<subseteq> (\<lambda>g. if g = s then t else g) ` G"
  proof
    fix g assume "g \<in> G - {s}"
    then have "g \<in> G" "(if g = s then t else g) = g" by auto
    then show "g \<in> (\<lambda>g. if g = s then t else g) ` G"
      by (rule_tac x=g in image_eqI) simp_all
  qed
qed

lemma numGroups_merge_group_le: "numGroups (merge_group s t off ps) \<le> numGroups ps"
  unfolding numGroups_def uniqueGroups_merge_group
  by (rule card_image_le) (rule finite_uniqueGroups)

lemma numGroups_merge_group_dec:
  assumes "s \<in> uniqueGroups ps" "t \<in> uniqueGroups ps" "s \<noteq> t"
  shows "numGroups (merge_group s t off ps) + 1 = numGroups ps"
proof -
  have "uniqueGroups (merge_group s t off ps) = uniqueGroups ps - {s}"
    unfolding uniqueGroups_merge_group using assms by (rule relabel_image_present)
  moreover have "card (uniqueGroups ps - {s}) + 1 = card (uniqueGroups ps)"
    using card_Suc_Diff1 [OF finite_uniqueGroups assms(1)] by simp
  ultimately show ?thesis by (simp add: numGroups_def)
qed

lemma numGroups_merge_all_le: "numGroups (merge_all ms ps) \<le> numGroups ps"
proof (induction ms arbitrary: ps)
  case Nil
  show ?case by simp
next
  case (Cons m ms)
  obtain s t off where m: "m = (s, t, off)" by (cases m)
  have "numGroups (merge_all ms (merge_group s t off ps)) \<le> numGroups (merge_group s t off ps)"
    by (rule Cons.IH)
  also have "\<dots> \<le> numGroups ps" by (rule numGroups_merge_group_le)
  finally show ?case by (simp add: m)
qed

section \<open>Relabelling and completion on a mirror keyed by id\<close>

lemma assign_merged_pass:
  "k \<notin> id_piece ` set qs \<Longrightarrow>
   assign_merged t off qs ((k, x) # ns) = (k, x) # assign_merged t off qs ns"
  by (induction qs arbitrary: ns) auto

lemma keyed_by_id_Cons:
  "keyed_by_id ((k, p) # ps) \<longleftrightarrow>
   id_piece p = k \<and> k \<notin> fst ` set ps \<and> keyed_by_id ps"
  by (auto simp: keyed_by_id_def)

lemma keyed_ids: "keyed_by_id ps \<Longrightarrow> id_piece ` set (values_of ps) = fst ` set ps"
  by (induction ps) (auto simp: keyed_by_id_def values_of_def)

lemma assign_merged_keyed:
  "keyed_by_id ps \<Longrightarrow>
   assign_merged t off (filter (\<lambda>p. groupId p = s) (values_of ps)) ps = merge_group s t off ps"
proof (induction ps)
  case Nil
  show ?case by (simp add: values_of_def merge_group_def)
next
  case (Cons kp ps)
  obtain k p where kp: "kp = (k, p)" by (cases kp)
  from Cons.prems have idk: "id_piece p = k" and fresh: "k \<notin> fst ` set ps" and keyed: "keyed_by_id ps"
    by (simp_all add: kp keyed_by_id_Cons)
  let ?qs = "filter (\<lambda>p. groupId p = s) (values_of ps)"
  have notin: "k \<notin> id_piece ` set ?qs"
    using keyed_ids [OF keyed] fresh by auto
  have IH: "assign_merged t off ?qs ps = merge_group s t off ps"
    by (rule Cons.IH [OF keyed])
  show ?case
  proof (cases "groupId p = s")
    case True
    then show ?thesis
      using assign_merged_pass [OF notin] IH idk
      by (simp add: kp values_of_def merge_group_def relabel_def)
  next
    case False
    then show ?thesis
      using assign_merged_pass [OF notin] IH
      by (simp add: kp values_of_def merge_group_def relabel_def)
  qed
qed

lemma complete_all_pass:
  "k \<notin> id_piece ` set qs \<Longrightarrow> complete_all qs ns = Inr ns' \<Longrightarrow>
   complete_all qs ((k, x) # ns) = Inr ((k, x) # ns')"
proof (induction qs arbitrary: ns)
  case Nil
  then show ?case by simp
next
  case (Cons q qs)
  from Cons.prems(1) have ne: "id_piece q \<noteq> k" and rest: "k \<notin> id_piece ` set qs" by auto
  from Cons.prems(2) obtain v where v: "map_of ns (id_piece q) = Some v"
    and run: "complete_all qs (AList.update (id_piece q) (snap_solved v) ns) = Inr ns'"
    by (auto split: option.splits)
  from Cons.IH [OF rest run] ne v show ?case by simp
qed

lemma complete_all_keyed:
  "keyed_by_id ns \<Longrightarrow>
   complete_all (values_of ns) ns = Inr (map (\<lambda>(k, p). (k, snap_solved p)) ns)"
proof (induction ns)
  case Nil
  show ?case by (simp add: values_of_def)
next
  case (Cons kp ns)
  obtain k p where kp: "kp = (k, p)" by (cases kp)
  from Cons.prems have idk: "id_piece p = k" and fresh: "k \<notin> fst ` set ns" and keyed: "keyed_by_id ns"
    by (simp_all add: kp keyed_by_id_Cons)
  have notin: "k \<notin> id_piece ` set (values_of ns)"
    using keyed_ids [OF keyed] fresh by simp
  from complete_all_pass [OF notin Cons.IH [OF keyed]] idk
  show ?case by (simp add: kp values_of_def)
qed

lemma keys_merge_group: "map fst (merge_group s t off ps) = map fst ps"
  by (induction ps) (simp_all add: merge_group_def split_beta)

lemma keys_completion: "map fst (completion ps) = map fst ps"
  by (induction ps) (simp_all add: completion_def split_beta)

lemma id_piece_relabel: "id_piece (relabel s t off p) = id_piece p"
  by (simp add: relabel_def)

lemma id_piece_snap_solved: "id_piece (snap_solved p) = id_piece p"
  by (simp add: snap_solved_def)

lemma keyed_by_id_merge_group: "keyed_by_id ps \<Longrightarrow> keyed_by_id (merge_group s t off ps)"
  unfolding keyed_by_id_def keys_merge_group
  by (simp add: merge_group_def list_all_iff split_beta id_piece_relabel)

lemma keyed_by_id_completion: "keyed_by_id ps \<Longrightarrow> keyed_by_id (completion ps)"
  unfolding keyed_by_id_def keys_completion
  by (simp add: completion_def list_all_iff split_beta id_piece_snap_solved)

lemma uniqueGroups_completion: "uniqueGroups (completion ps) = uniqueGroups ps"
  by (induction ps) (auto simp: uniqueGroups_def completion_def snap_solved_def values_of_def)

lemma on_GROUP_MERGED_keyed:
  assumes "keyed_by_id (pieceStates_c st)"
  shows "on_GROUP_MERGED s t off st =
         Inr (st\<lparr>pieceStates_c :=
                (if numGroups (merge_group s t off (pieceStates_c st)) = 1
                 then completion (merge_group s t off (pieceStates_c st))
                 else merge_group s t off (pieceStates_c st))\<rparr>)"
  using assms complete_all_keyed [OF keyed_by_id_merge_group [OF assms], of s t off]
  by (simp add: on_GROUP_MERGED_def assign_merged_keyed completion_def)

lemma numGroups_completion: "numGroups (completion ps) = numGroups ps"
  by (simp add: numGroups_def uniqueGroups_completion)

lemma on_GROUP_MERGED_groups:
  assumes "keyed_by_id (pieceStates_c st)"
  shows "\<exists>st'. on_GROUP_MERGED s t off st = Inr st' \<and> keyed_by_id (pieceStates_c st') \<and>
           uniqueGroups (pieceStates_c st') = uniqueGroups (merge_group s t off (pieceStates_c st))"
  using assms
  by (simp add: on_GROUP_MERGED_keyed uniqueGroups_completion keyed_by_id_completion
        keyed_by_id_merge_group)

lemma on_GROUP_MERGED_all_le:
  "keyed_by_id (pieceStates_c st) \<Longrightarrow>
   \<exists>st'. on_GROUP_MERGED_all ms st = Inr st' \<and>
         numGroups (pieceStates_c st') \<le> numGroups (pieceStates_c st)"
proof (induction ms arbitrary: st)
  case Nil
  show ?case by simp
next
  case (Cons m ms)
  obtain s t off where m: "m = (s, t, off)" by (cases m)
  from on_GROUP_MERGED_groups [OF Cons.prems, of s t off]
  obtain st1 where st1: "on_GROUP_MERGED s t off st = Inr st1"
    and keyed1: "keyed_by_id (pieceStates_c st1)"
    and groups1: "uniqueGroups (pieceStates_c st1) =
                  uniqueGroups (merge_group s t off (pieceStates_c st))"
    by blast
  from Cons.IH [OF keyed1] obtain st' where st': "on_GROUP_MERGED_all ms st1 = Inr st'"
    and le: "numGroups (pieceStates_c st') \<le> numGroups (pieceStates_c st1)" by blast
  have "numGroups (pieceStates_c st1) = numGroups (merge_group s t off (pieceStates_c st))"
    by (simp add: numGroups_def groups1)
  also have "\<dots> \<le> numGroups (pieceStates_c st)" by (rule numGroups_merge_group_le)
  finally have "numGroups (pieceStates_c st') \<le> numGroups (pieceStates_c st)" using le by simp
  with st' st1 show ?case by (simp add: m)
qed

lemma four_groups: "uniqueGroups four_pieces = {''P1'', ''P2'', ''P3'', ''P4''}"
  by (simp add: uniqueGroups_def values_of_def four_pieces_def)

lemma four_keyed: "keyed_by_id four_pieces"
  by (simp add: keyed_by_id_def four_pieces_def)

section \<open>Merges that find nothing to relabel, and merges of a group into itself\<close>

lemma relabel_absent: "groupId p \<noteq> s \<Longrightarrow> relabel s t off p = p"
  by (simp add: relabel_def)

lemma merge_group_absent: "s \<notin> uniqueGroups ps \<Longrightarrow> merge_group s t off ps = ps"
  by (induction ps) (auto simp: uniqueGroups_def values_of_def merge_group_def relabel_absent)

lemma absent_after_merge: "s \<noteq> t \<Longrightarrow> s \<notin> uniqueGroups (merge_group s t off ps)"
  by (auto simp: uniqueGroups_merge_group split: if_splits)

lemma merge_group_twice:
  "s \<noteq> t \<Longrightarrow> merge_group s t off (merge_group s t off ps) = merge_group s t off ps"
  by (rule merge_group_absent) (rule absent_after_merge)

lemma snap_solved_idem: "snap_solved (snap_solved p) = snap_solved p"
  by (simp add: snap_solved_def pos0_def pos2_def)

lemma completion_idem: "completion (completion ps) = completion ps"
  by (induction ps) (auto simp: completion_def snap_solved_idem)

lemma relabel_same:
  "relabel g g off p =
     (if groupId p = g then p\<lparr>position := translate (position p) off\<rparr> else p)"
  by (simp add: relabel_def)

lemma merge_group_same:
  "merge_group g g off ps =
     map (\<lambda>(k, p). (k, if groupId p = g
                        then p\<lparr>position := translate (position p) off\<rparr> else p)) ps"
  by (simp add: merge_group_def relabel_same)

lemma uniqueGroups_merge_same: "uniqueGroups (merge_group g g off ps) = uniqueGroups ps"
proof -
  have "(\<lambda>x. if x = g then g else x) = (\<lambda>x. x)" by auto
  then show ?thesis by (simp add: uniqueGroups_merge_group)
qed

lemma fields_merge_same:
  "map groupId (values_of (merge_group g g off ps)) = map groupId (values_of ps)"
  "map isSolved (values_of (merge_group g g off ps)) = map isSolved (values_of ps)"
  "map id_piece (values_of (merge_group g g off ps)) = map id_piece (values_of ps)"
  by (simp_all add: values_of_def merge_group_def relabel_def split_beta)

lemma on_GROUP_MERGED_twice:
  assumes keyed: "keyed_by_id (pieceStates_c st)" and ne: "s \<noteq> t"
  shows "\<exists>st'. on_GROUP_MERGED s t off st = Inr st' \<and> on_GROUP_MERGED s t off st' = Inr st'"
proof -
  let ?m = "merge_group s t off (pieceStates_c st)"
  let ?ps' = "if numGroups ?m = 1 then completion ?m else ?m"
  let ?st' = "st\<lparr>pieceStates_c := ?ps'\<rparr>"
  have first: "on_GROUP_MERGED s t off st = Inr ?st'"
    by (rule on_GROUP_MERGED_keyed [OF keyed])
  have keyed': "keyed_by_id (pieceStates_c ?st')"
    using keyed by (simp add: keyed_by_id_merge_group keyed_by_id_completion)
  have absent: "s \<notin> uniqueGroups ?ps'"
    using absent_after_merge [OF ne, of off "pieceStates_c st"]
    by (simp add: uniqueGroups_completion)
  have same: "merge_group s t off ?ps' = ?ps'"
    by (rule merge_group_absent [OF absent])
  have "on_GROUP_MERGED s t off ?st' =
        Inr (?st'\<lparr>pieceStates_c := (if numGroups ?ps' = 1 then completion ?ps' else ?ps')\<rparr>)"
    using on_GROUP_MERGED_keyed [OF keyed', of s t off] same by simp
  also have "(if numGroups ?ps' = 1 then completion ?ps' else ?ps') = ?ps'"
    by (simp add: numGroups_completion completion_idem)
  finally have "on_GROUP_MERGED s t off ?st' = Inr ?st'" by simp
  with first show ?thesis by blast
qed

lemma one_keyed: "keyed_by_id one_piece"
  by (simp add: keyed_by_id_def one_piece_def)

lemma one_groups: "uniqueGroups one_piece = {''P1''}"
  by (simp add: uniqueGroups_def values_of_def one_piece_def)

lemma on_GROUP_MERGED_absent_many:
  assumes "s \<notin> uniqueGroups (pieceStates_c st)" "numGroups (pieceStates_c st) \<noteq> 1"
  shows "on_GROUP_MERGED s t off st = Inr st"
proof -
  have "filter (\<lambda>p. groupId p = s) (values_of (pieceStates_c st)) = []"
    using assms(1) by (auto simp: uniqueGroups_def filter_empty_conv)
  then show ?thesis using assms(2) by (simp add: on_GROUP_MERGED_def)
qed

section \<open>Moves on the server\<close>

lemma get_property_Own: "map_of ps k = Some p \<Longrightarrow> get_property names ps k = Own p"
  by (simp add: get_property_def)

lemma get_property_Absent:
  "map_of ps k = None \<Longrightarrow> k \<notin> set names \<Longrightarrow> get_property names ps k = Absent"
  by (simp add: get_property_def)

lemma get_property_Inherited:
  "map_of ps k = None \<Longrightarrow> k \<in> set names \<Longrightarrow> get_property names ps k = Inherited"
  by (simp add: get_property_def)

text \<open>
  For an id that names no inherited property, \<^verbatim>\<open>MOVE_PIECE\<close> stores the default state when
  the id is new and overwrites the position alone when the id is held; every other entry
  is as before.
\<close>

lemma map_of_move_piece:
  assumes "pieceId \<notin> set (inherited_names polluted)"
  shows "map_of (move_piece polluted pieceId pos ps) =
     (map_of ps)(pieceId \<mapsto>
        (case map_of ps pieceId of
           None \<Rightarrow> \<lparr>id_piece = pieceId, position = pos, groupId = pieceId, isSolved = False\<rparr>
         | Some p \<Rightarrow> p\<lparr>position := pos\<rparr>))"
proof (cases "map_of ps pieceId")
  case None
  with assms show ?thesis
    by (simp add: move_piece_def get_property_Absent update_conv')
next
  case (Some p)
  then show ?thesis
    by (simp add: move_piece_def get_property_Own update_conv')
qed

lemma move_piece_inherited:
  "map_of ps pieceId = None \<Longrightarrow> pieceId \<in> set (inherited_names polluted) \<Longrightarrow>
   move_piece polluted pieceId pos ps = ps"
  by (simp add: move_piece_def get_property_Inherited)

lemma toString_inherited: "''toString'' \<in> set (inherited_names False)"
  by (simp add: inherited_names_def Object_prototype_def)

section \<open>Snap detection\<close>

lemma snap_dist_euclid2:
  "snap_dist rm rt m t = euclid2 (placed_offset m t) (ideal_offset rm rt)"
  by (simp add: snap_dist_def euclid2_def placed_offset_def ideal_offset_def)

lemma find_append_list:
  "find P (xs @ ys) = (case find P xs of Some x \<Rightarrow> Some x | None \<Rightarrow> find P ys)"
  by (induction xs) simp_all

lemma find_map_Pair:
  "find (\<lambda>(m, t). Q m t) (map (Pair m) ts) = map_option (Pair m) (find (Q m) ts)"
  by (induction ts) simp_all

lemma scan_targets_find:
  "find_region regions (id_piece mover) = Some rm \<Longrightarrow>
   scan_targets regions rm mover others =
     map_option groupId (find (snap_pair regions mover) others)"
  by (induction others)
     (auto simp: snap_pair_def snap_dist_euclid2 SNAP_DISTANCE_def split: option.splits)

lemma snap_pair_no_region:
  "find_region regions (id_piece mover) = None \<Longrightarrow> find (snap_pair regions mover) others = None"
  by (simp add: find_None_iff snap_pair_def)

lemma scan_movers_truthy: "truthy c \<Longrightarrow> scan_movers regions ms others c = c"
  by (cases ms) simp_all

lemma first_snap_pair_Cons:
  "first_snap_pair regions (m # ms) others =
     (case find (snap_pair regions m) others of
        Some t \<Rightarrow> Some (m, t)
      | None \<Rightarrow> first_snap_pair regions ms others)"
  by (simp add: first_snap_pair_def find_append_list find_map_Pair split: option.splits)

lemma scan_movers_first:
  assumes "list_all (\<lambda>p. groupId p \<noteq> []) others"
  shows "scan_movers regions movers others None =
         map_option (\<lambda>(m, t). groupId t) (first_snap_pair regions movers others)"
proof (induction movers)
  case Nil
  show ?case by (simp add: first_snap_pair_def)
next
  case (Cons m ms)
  show ?case
  proof (cases "find_region regions (id_piece m)")
    case None
    with Cons show ?thesis
      by (simp add: first_snap_pair_Cons snap_pair_no_region)
  next
    case (Some rm)
    show ?thesis
    proof (cases "find (snap_pair regions m) others")
      case None
      with Some Cons show ?thesis
        by (simp add: first_snap_pair_Cons scan_targets_find)
    next
      case (Some t)
      then have "t \<in> set others" by (auto simp: find_Some_iff)
      with assms have "groupId t \<noteq> []" by (simp add: list_all_iff)
      then have "scan_movers regions ms others (Some (groupId t)) = Some (groupId t)"
        by (simp add: scan_movers_truthy)
      with Some \<open>find_region regions (id_piece m) = Some rm\<close> show ?thesis
        by (simp add: first_snap_pair_Cons scan_targets_find)
    qed
  qed
qed

lemma set_update_subset: "set (AList.update k v al) \<subseteq> insert (k, v) (set al)"
  by (induction al) auto

lemma nonempty_groups_update:
  "list_all (\<lambda>p. groupId p \<noteq> []) (values_of ns) \<Longrightarrow> groupId v \<noteq> [] \<Longrightarrow>
   list_all (\<lambda>p. groupId p \<noteq> []) (values_of (AList.update k v ns))"
  using set_update_subset [of k v ns] by (auto simp: list_all_iff values_of_def)

lemma nonempty_groups_move_active:
  "list_all (\<lambda>p. groupId p \<noteq> []) (values_of ns) \<Longrightarrow> list_all (\<lambda>p. groupId p \<noteq> []) qs \<Longrightarrow>
   list_all (\<lambda>p. groupId p \<noteq> []) (values_of (fst (move_active g delta qs ns sent)))"
proof (induction qs arbitrary: ns sent)
  case Nil
  then show ?case by simp
next
  case (Cons q qs)
  show ?case
  proof (cases "groupId q = g")
    case True
    have "list_all (\<lambda>p. groupId p \<noteq> [])
            (values_of (AList.update (id_piece q)
                          (q\<lparr>position := translate (position q) delta\<rparr>) ns))"
      using Cons.prems by (intro nonempty_groups_update) simp_all
    from Cons.IH [OF this] Cons.prems(2) True show ?thesis by (simp add: Let_def)
  next
    case False
    with Cons show ?thesis by simp
  qed
qed

lemma dragMove_candidate:
  assumes groups: "list_all (\<lambda>p. groupId p \<noteq> []) (values_of (pieceStates_c st))"
    and dragged: "draggedPieceId st = Some d" "d \<noteq> []" "map_of (pieceStates_c st) d = Some dragged"
  shows "\<exists>st' sent. dragMove delta st = Inr (st', sent) \<and>
           snapCandidateGroupId st' =
             map_option (\<lambda>(m, t). groupId t)
               (first_snap_pair (puzzleRegions st)
                  (filter (\<lambda>p. groupId p = groupId dragged) (values_of (pieceStates_c st')))
                  (filter (\<lambda>p. groupId p \<noteq> groupId dragged) (values_of (pieceStates_c st'))))"
proof -
  obtain newStates sent where mv:
    "move_active (groupId dragged) delta (values_of (pieceStates_c st)) (pieceStates_c st) [] =
       (newStates, sent)" by (cases "move_active (groupId dragged) delta
          (values_of (pieceStates_c st)) (pieceStates_c st) []")
  have "list_all (\<lambda>p. groupId p \<noteq> []) (values_of newStates)"
    using nonempty_groups_move_active [OF groups groups, of "groupId dragged" delta "[]"] mv
    by simp
  then have others: "list_all (\<lambda>p. groupId p \<noteq> [])
                       (filter (\<lambda>p. groupId p \<noteq> groupId dragged) (values_of newStates))"
    by (simp add: list_all_iff)
  show ?thesis
    using dragged mv scan_movers_first [OF others]
    by (simp add: dragMove_def Let_def)
qed

lemma snap_dist_threshold:
  "snap_dist rm rt m t < SNAP_DISTANCE \<longleftrightarrow>
     (pos0 (position m) - pos0 (position t) - (center_x rm - center_x rt))\<^sup>2 +
     (pos2 (position m) - pos2 (position t) - (center_y rm - center_y rt))\<^sup>2 < 16"
proof -
  have "sqrt 16 = 4" using real_sqrt_abs2 [of 4] by simp
  then have "\<And>x. sqrt x < 4 \<longleftrightarrow> x < 16" by (metis real_sqrt_less_iff)
  then show ?thesis by (simp add: snap_dist_def SNAP_DISTANCE_def)
qed

lemma snap_example_near:
  "dragMove (0, 0, 0) (snap_store 2.1) =
     Inr (snap_store 2.1\<lparr>snapCandidateGroupId := Some ''P2''\<rparr>, [MOVE_PIECE ''P1'' (2.1, 12, 0)])"
  by (simp add: dragMove_def Let_def snap_store_def values_of_def find_region_def
        snap_dist_threshold pos0_def pos2_def power2_eq_square)

lemma snap_example_far:
  "dragMove (0, 0, 0) (snap_store 10) =
     Inr (snap_store 10\<lparr>snapCandidateGroupId := None\<rparr>, [MOVE_PIECE ''P1'' (10, 12, 0)])"
  by (simp add: dragMove_def Let_def snap_store_def values_of_def find_region_def
        snap_dist_threshold pos0_def pos2_def power2_eq_square)

lemma euclid2_threshold:
  "euclid2 a b < 4 \<longleftrightarrow> (fst a - fst b)\<^sup>2 + (snd a - snd b)\<^sup>2 < 16"
proof -
  have "sqrt 16 = 4" using real_sqrt_abs2 [of 4] by simp
  then have "\<And>x. sqrt x < 4 \<longleftrightarrow> x < 16" by (metis real_sqrt_less_iff)
  then show ?thesis by (simp add: euclid2_def)
qed

lemma snap_store_first_pair:
  "first_snap_pair (puzzleRegions (snap_store 2.1))
     [\<lparr>id_piece = ''P1'', position = (2.1, 12, 0), groupId = ''P1'', isSolved = False\<rparr>]
     [\<lparr>id_piece = ''P2'', position = (0, 15, 0), groupId = ''P2'', isSolved = False\<rparr>] =
   Some (\<lparr>id_piece = ''P1'', position = (2.1, 12, 0), groupId = ''P1'', isSolved = False\<rparr>,
         \<lparr>id_piece = ''P2'', position = (0, 15, 0), groupId = ''P2'', isSolved = False\<rparr>)"
  by (simp add: first_snap_pair_def snap_pair_def snap_store_def find_region_def
        euclid2_threshold placed_offset_def ideal_offset_def pos0_def pos2_def power2_eq_square)

section \<open>Initial placement of the mirror\<close>

lemma place_regions_step:
  assumes "scatterSeed config \<noteq> []" "\<not> has \<longrightarrow> server = []"
  shows "place_regions config server has index (r # rs) states =
         place_regions config server has (Suc index) rs
           (AList.update (id_region r) (initial_state config server index r) states)"
proof (cases has)
  case True
  with assms(1) show ?thesis
    by (cases "map_of server (id_region r)") (simp_all add: initial_state_def)
next
  case False
  with assms show ?thesis by (simp add: initial_state_def)
qed

lemma place_regions_result:
  assumes "scatterSeed config \<noteq> []" "distinct (map id_region rs)" "\<not> has \<longrightarrow> server = []"
  shows "\<exists>res. place_regions config server has index rs states = Inr res
           \<and> fst ` set res = fst ` set states \<union> id_region ` set rs
           \<and> (\<forall>i<length rs. map_of res (id_region (rs ! i)) =
                 Some (initial_state config server (index + i) (rs ! i)))
           \<and> (\<forall>k. k \<notin> id_region ` set rs \<longrightarrow> map_of res k = map_of states k)"
  using assms(2)
proof (induction rs arbitrary: index states)
  case Nil
  show ?case by simp
next
  case (Cons r rs)
  let ?states1 = "AList.update (id_region r) (initial_state config server index r) states"
  from Cons.prems have fresh: "id_region r \<notin> id_region ` set rs" and dist: "distinct (map id_region rs)"
    by simp_all
  from Cons.IH [OF dist, of "Suc index" ?states1]
  obtain res where res: "place_regions config server has (Suc index) rs ?states1 = Inr res"
    and keys: "fst ` set res = fst ` set ?states1 \<union> id_region ` set rs"
    and at: "\<forall>i<length rs. map_of res (id_region (rs ! i)) =
                 Some (initial_state config server (Suc index + i) (rs ! i))"
    and other: "\<forall>k. k \<notin> id_region ` set rs \<longrightarrow> map_of res k = map_of ?states1 k"
    by blast
  have head: "map_of res (id_region r) = Some (initial_state config server index r)"
    using other fresh by (simp add: update_conv')
  have at': "\<forall>i<length (r # rs). map_of res (id_region ((r # rs) ! i)) =
                 Some (initial_state config server (index + i) ((r # rs) ! i))"
  proof (intro allI impI)
    fix i assume "i < length (r # rs)"
    then show "map_of res (id_region ((r # rs) ! i)) =
                 Some (initial_state config server (index + i) ((r # rs) ! i))"
      using head at by (cases i) simp_all
  qed
  have keys': "fst ` set res = fst ` set states \<union> id_region ` set (r # rs)"
    using keys by (auto simp: dom_update)
  have other': "\<forall>k. k \<notin> id_region ` set (r # rs) \<longrightarrow> map_of res k = map_of states k"
    using other by (simp add: update_conv')
  from res keys' at' other' show ?case
    by (simp only: place_regions_step [OF assms(1) assms(3)]) blast
qed

lemma setPuzzleRegions_result:
  assumes "distinct (map id_region regions)" "scatterSeed config \<noteq> []"
  shows "\<exists>st'. setPuzzleRegions regions config server st = Inr st'
           \<and> puzzleRegions st' = regions
           \<and> fst ` set (pieceStates_c st') = id_region ` set regions
           \<and> (\<forall>i<length regions. map_of (pieceStates_c st') (id_region (regions ! i)) =
                 Some (initial_state config server i (regions ! i)))"
proof -
  have flag: "\<not> length (map fst server) > 0 \<longrightarrow> server = []" by simp
  from place_regions_result [OF assms(2) assms(1) flag, of 0 "[]"]
  obtain res where
    "place_regions config server (length (map fst server) > 0) 0 regions [] = Inr res"
    "fst ` set res = id_region ` set regions"
    "\<forall>i<length regions. map_of res (id_region (regions ! i)) =
        Some (initial_state config server i (regions ! i))"
    by auto
  then show ?thesis by (simp add: setPuzzleRegions_def)
qed

lemma place_regions_server_entries:
  assumes "\<not> has \<longrightarrow> server = []"
  shows "place_regions config server has index rs states = Inr res \<Longrightarrow>
         (\<forall>r\<in>set rs. \<forall>s. map_of server (id_region r) = Some s \<longrightarrow>
             map_of res (id_region r) = Some s)
         \<and> (\<forall>k. k \<notin> id_region ` set rs \<longrightarrow> map_of res k = map_of states k)"
proof (induction rs arbitrary: index states)
  case Nil
  then show ?case by simp
next
  case (Cons r rs)
  have lookup: "(if has then map_of server (id_region r) else None) = map_of server (id_region r)"
    using assms by (cases has) simp_all
  have "\<exists>v. place_regions config server has (Suc index) rs
               (AList.update (id_region r) v states) = Inr res \<and>
            (\<forall>s. map_of server (id_region r) = Some s \<longrightarrow> v = s)"
  proof (cases "map_of server (id_region r)")
    case None
    with Cons.prems lookup have seed: "scatterSeed config \<noteq> []"
      by (cases "scatterSeed config = []") simp_all
    with Cons.prems lookup None show ?thesis by simp blast
  next
    case (Some s0)
    with Cons.prems lookup show ?thesis by simp
  qed
  then obtain v where
    run: "place_regions config server has (Suc index) rs (AList.update (id_region r) v states) = Inr res"
    and v: "\<forall>s. map_of server (id_region r) = Some s \<longrightarrow> v = s"
    by blast
  from Cons.IH [OF run]
  have entries: "\<forall>r'\<in>set rs. \<forall>s. map_of server (id_region r') = Some s \<longrightarrow>
                   map_of res (id_region r') = Some s"
    and other: "\<forall>k. k \<notin> id_region ` set rs \<longrightarrow>
                   map_of res k = map_of (AList.update (id_region r) v states) k"
    by blast+
  have head: "\<forall>s. map_of server (id_region r) = Some s \<longrightarrow> map_of res (id_region r) = Some s"
  proof (intro allI impI)
    fix s assume s: "map_of server (id_region r) = Some s"
    show "map_of res (id_region r) = Some s"
    proof (cases "id_region r \<in> id_region ` set rs")
      case True
      then obtain r' where r': "r' \<in> set rs" "id_region r' = id_region r" by auto
      from entries r'(1) have "map_of server (id_region r') = Some s \<longrightarrow>
                                 map_of res (id_region r') = Some s" by blast
      with s r'(2) show ?thesis by simp
    next
      case False
      with other v s show ?thesis by (simp add: update_conv')
    qed
  qed
  from head entries other show ?case by (simp add: update_conv')
qed

lemma setPuzzleRegions_server_entries:
  assumes "setPuzzleRegions regions config server st = Inr st'" "r \<in> set regions"
    "map_of server (id_region r) = Some s"
  shows "map_of (pieceStates_c st') (id_region r) = Some s"
proof -
  have flag: "\<not> length (map fst server) > 0 \<longrightarrow> server = []" by simp
  have "\<exists>res. place_regions config server (length (map fst server) > 0) 0 regions [] = Inr res
           \<and> st' = st\<lparr>puzzleRegions := regions, pieceStates_c := res\<rparr>"
  proof (cases "place_regions config server (length (map fst server) > 0) 0 regions []")
    case (Inl e)
    with assms(1) show ?thesis by (simp add: setPuzzleRegions_def)
  next
    case (Inr res)
    with assms(1) show ?thesis by (simp add: setPuzzleRegions_def)
  qed
  then obtain res where
    res: "place_regions config server (length (map fst server) > 0) 0 regions [] = Inr res"
    and st': "st' = st\<lparr>puzzleRegions := regions, pieceStates_c := res\<rparr>"
    by blast
  from place_regions_server_entries [OF flag res] assms(2,3) st' show ?thesis by simp
qed

section \<open>The completion check\<close>















section \<open>Claims\<close>

text \<open>
  C1. When some piece is in the source group, some piece is in the target group and the two
  groups differ, a merge lowers the number of distinct group ids by exactly one, and no run
  of merges ever raises it. This holds for the server's \<^verbatim>\<open>MERGE_GROUP\<close> loop and, on a mirror
  keyed by piece id, for the client's \<^verbatim>\<open>GROUP_MERGED\<close> handler, which never raises there.
\<close>

theorem merge_group_count:
  "(s \<in> uniqueGroups ps \<and> t \<in> uniqueGroups ps \<and> s \<noteq> t \<longrightarrow>
      numGroups (merge_group s t off ps) + 1 = numGroups ps)
   \<and> numGroups (merge_all ms ps) \<le> numGroups ps
   \<and> (keyed_by_id (pieceStates_c st) \<longrightarrow>
        (\<exists>st'. on_GROUP_MERGED s t off st = Inr st' \<and>
           (s \<in> uniqueGroups (pieceStates_c st) \<and> t \<in> uniqueGroups (pieceStates_c st) \<and> s \<noteq> t
              \<longrightarrow> numGroups (pieceStates_c st') + 1 = numGroups (pieceStates_c st)))
        \<and> (\<exists>st'. on_GROUP_MERGED_all ms st = Inr st' \<and>
              numGroups (pieceStates_c st') \<le> numGroups (pieceStates_c st)))"
proof (intro conjI impI)
  assume "s \<in> uniqueGroups ps \<and> t \<in> uniqueGroups ps \<and> s \<noteq> t"
  then show "numGroups (merge_group s t off ps) + 1 = numGroups ps"
    using numGroups_merge_group_dec [of s ps t off] by blast
next
  show "numGroups (merge_all ms ps) \<le> numGroups ps" by (rule numGroups_merge_all_le)
next
  assume keyed: "keyed_by_id (pieceStates_c st)"
  from on_GROUP_MERGED_groups [OF keyed, of s t off]
  obtain st' where st': "on_GROUP_MERGED s t off st = Inr st'"
    and groups: "uniqueGroups (pieceStates_c st') =
                 uniqueGroups (merge_group s t off (pieceStates_c st))" by blast
  have "s \<in> uniqueGroups (pieceStates_c st) \<and> t \<in> uniqueGroups (pieceStates_c st) \<and> s \<noteq> t
        \<longrightarrow> numGroups (pieceStates_c st') + 1 = numGroups (pieceStates_c st)"
    using numGroups_merge_group_dec [of s "pieceStates_c st" t off]
    by (simp add: numGroups_def groups)
  with st' show "\<exists>st'. on_GROUP_MERGED s t off st = Inr st' \<and>
           (s \<in> uniqueGroups (pieceStates_c st) \<and> t \<in> uniqueGroups (pieceStates_c st) \<and> s \<noteq> t
              \<longrightarrow> numGroups (pieceStates_c st') + 1 = numGroups (pieceStates_c st))" by blast
next
  assume "keyed_by_id (pieceStates_c st)"
  then show "\<exists>st'. on_GROUP_MERGED_all ms st = Inr st' \<and>
              numGroups (pieceStates_c st') \<le> numGroups (pieceStates_c st)"
    by (rule on_GROUP_MERGED_all_le)
qed

theorem merge_group_count_witness:
  "''P2'' \<in> uniqueGroups four_pieces \<and> ''P1'' \<in> uniqueGroups four_pieces \<and> ''P2'' \<noteq> ''P1''
   \<and> keyed_by_id (pieceStates_c four_store)
   \<and> numGroups (merge_group ''P2'' ''P1'' (1, 0, 0) four_pieces) + 1 = numGroups four_pieces
   \<and> numGroups four_pieces = 4
   \<and> (\<exists>st'. on_GROUP_MERGED ''P2'' ''P1'' (1, 0, 0) four_store = Inr st' \<and>
          numGroups (pieceStates_c st') + 1 = numGroups (pieceStates_c four_store))"
  using merge_group_count [of "''P2''" four_pieces "''P1''" "(1, 0, 0)" "[]" four_store]
  by (simp add: four_groups four_keyed four_store_def numGroups_def)

text \<open>
  C2 (as stated: merging a group into itself changes nothing). The source has no guard for
  equal group ids: at \<open>four_pieces\<close>, \<^verbatim>\<open>merge("P2", "P2", [1, 0, 0])\<close> moves piece P2 from
  \<open>(5, 11, 3)\<close> to \<open>(6, 11, 3)\<close>.
\<close>

theorem merge_same_group_counterexample:
  "map_of four_pieces ''P2'' =
     Some \<lparr>id_piece = ''P2'', position = (5, 11, 3), groupId = ''P2'', isSolved = False\<rparr>
   \<and> map_of (merge_group ''P2'' ''P2'' (1, 0, 0) four_pieces) ''P2'' =
     Some \<lparr>id_piece = ''P2'', position = (6, 11, 3), groupId = ''P2'', isSolved = False\<rparr>
   \<and> pieceStates (fst (handle_MERGE_GROUP \<lparr>connId = 1, readyState = OPEN\<rparr> ''P2'' ''P2'' (1, 0, 0)
        \<lparr>players = [\<lparr>connId = 1, readyState = OPEN\<rparr>], pieceStates = four_pieces\<rparr>))
       \<noteq> four_pieces"
  by (simp add: four_pieces_def merge_group_def relabel_def handle_MERGE_GROUP_def)

text \<open>
  C2 (amended). Merging group \<open>g\<close> into itself changes no group id and, on the server, no
  solved flag, but translates the position of every piece of group \<open>g\<close> by the offset and
  leaves the other pieces as they are. The client's handler does the same on a mirror keyed
  by piece id and then runs its completion check.
\<close>

theorem merge_same_group:
  "map groupId (values_of (merge_group g g off ps)) = map groupId (values_of ps)
   \<and> map isSolved (values_of (merge_group g g off ps)) = map isSolved (values_of ps)
   \<and> merge_group g g off ps =
     map (\<lambda>(k, p). (k, if groupId p = g
                        then p\<lparr>position := translate (position p) off\<rparr> else p)) ps
   \<and> (keyed_by_id (pieceStates_c st) \<longrightarrow>
        on_GROUP_MERGED g g off st =
          Inr (st\<lparr>pieceStates_c :=
                 (if numGroups (pieceStates_c st) = 1
                  then completion (merge_group g g off (pieceStates_c st))
                  else merge_group g g off (pieceStates_c st))\<rparr>))"
  by (simp add: fields_merge_same merge_group_same [symmetric] on_GROUP_MERGED_keyed
        numGroups_def uniqueGroups_merge_same)

theorem merge_same_group_witness:
  "keyed_by_id (pieceStates_c four_store)
   \<and> on_GROUP_MERGED ''P2'' ''P2'' (1, 0, 0) four_store =
       Inr (four_store\<lparr>pieceStates_c :=
         [(''P1'', \<lparr>id_piece = ''P1'', position = (0, 12, 0), groupId = ''P1'', isSolved = False\<rparr>),
          (''P2'', \<lparr>id_piece = ''P2'', position = (6, 11, 3), groupId = ''P2'', isSolved = False\<rparr>),
          (''P3'', \<lparr>id_piece = ''P3'', position = (-7, 20, 1), groupId = ''P3'', isSolved = False\<rparr>),
          (''P4'', \<lparr>id_piece = ''P4'', position = (9, 15, -4), groupId = ''P4'', isSolved = False\<rparr>)]\<rparr>)"
  using merge_same_group [of "''P2''" "(1, 0, 0)" four_pieces four_store]
  by (simp add: four_keyed four_store_def numGroups_def four_groups)
     (simp add: four_pieces_def)

text \<open>
  C3 (as stated: a second identical merge translates the positions again). With distinct
  source and target and the nonzero offset \<open>(1, 0, 0)\<close>, piece P2 is at \<open>(6, 11, 3)\<close> after one
  merge and still there after two.
\<close>

theorem merge_twice_counterexample:
  "''P2'' \<noteq> ''P1'' \<and> (1::real, 0::real, 0::real) \<noteq> (0, 0, 0)
   \<and> map_of (merge_group ''P2'' ''P1'' (1, 0, 0) four_pieces) ''P2'' =
       Some \<lparr>id_piece = ''P2'', position = (6, 11, 3), groupId = ''P1'', isSolved = False\<rparr>
   \<and> map_of (merge_group ''P2'' ''P1'' (1, 0, 0)
               (merge_group ''P2'' ''P1'' (1, 0, 0) four_pieces)) ''P2'' =
       Some \<lparr>id_piece = ''P2'', position = (6, 11, 3), groupId = ''P1'', isSolved = False\<rparr>"
  by (simp add: four_pieces_def merge_group_def relabel_def)

text \<open>
  C3 (amended). With distinct source and target, applying a merge twice with the same
  arguments gives exactly the state of applying it once, positions included: after the
  first application no piece is left in the source group. The same holds for the client's
  handler on a mirror keyed by piece id.
\<close>

theorem merge_twice:
  "s \<noteq> t \<Longrightarrow>
   merge_group s t off (merge_group s t off ps) = merge_group s t off ps
   \<and> (keyed_by_id (pieceStates_c st) \<longrightarrow>
        (\<exists>st'. on_GROUP_MERGED s t off st = Inr st' \<and> on_GROUP_MERGED s t off st' = Inr st'))"
  by (simp add: merge_group_twice on_GROUP_MERGED_twice)

theorem merge_twice_witness:
  "''P2'' \<noteq> ''P1'' \<and> keyed_by_id (pieceStates_c four_store)
   \<and> merge_group ''P2'' ''P1'' (1, 0, 0) (merge_group ''P2'' ''P1'' (1, 0, 0) four_pieces) =
       merge_group ''P2'' ''P1'' (1, 0, 0) four_pieces
   \<and> (\<exists>st'. on_GROUP_MERGED ''P2'' ''P1'' (1, 0, 0) four_store = Inr st' \<and>
             on_GROUP_MERGED ''P2'' ''P1'' (1, 0, 0) st' = Inr st')"
  using merge_twice [of "''P2''" "''P1''" "(1, 0, 0)" four_pieces four_store]
  by (simp add: four_keyed four_store_def)

text \<open>
  C10 (as stated: an unknown source group leaves every piece state unchanged on both sides).
  On the client the completion check still runs: a one-piece mirror that receives a merge
  of two unknown groups has its piece marked solved and put on the floor.
\<close>

theorem merge_unknown_source_counterexample:
  "''P7'' \<notin> uniqueGroups (pieceStates_c one_store)
   \<and> on_GROUP_MERGED ''P7'' ''P8'' (1, 1, 1) one_store =
       Inr (one_store\<lparr>pieceStates_c :=
         [(''P1'', \<lparr>id_piece = ''P1'', position = (3, 0, -2), groupId = ''P1'', isSolved = True\<rparr>)]\<rparr>)
   \<and> pieceStates_c one_store =
         [(''P1'', \<lparr>id_piece = ''P1'', position = (3, 12, -2), groupId = ''P1'', isSolved = False\<rparr>)]"
  by (simp add: one_store_def one_piece_def on_GROUP_MERGED_def values_of_def numGroups_def
        uniqueGroups_def snap_solved_def pos0_def pos2_def)

text \<open>
  C10 (amended). When no piece is in the source group, the server's merge leaves every piece
  state unchanged, and so does the client's handler when the mirror does not hold exactly
  one group; when the mirror (keyed by piece id) holds exactly one group, the handler
  relabels, translates and creates nothing, and applies the completion transition.
\<close>

theorem merge_unknown_source:
  "s \<notin> uniqueGroups ps \<Longrightarrow> s \<notin> uniqueGroups (pieceStates_c st) \<Longrightarrow>
   merge_group s t off ps = ps
   \<and> (numGroups (pieceStates_c st) \<noteq> 1 \<longrightarrow> on_GROUP_MERGED s t off st = Inr st)
   \<and> (numGroups (pieceStates_c st) = 1 \<and> keyed_by_id (pieceStates_c st) \<longrightarrow>
        on_GROUP_MERGED s t off st = Inr (st\<lparr>pieceStates_c := completion (pieceStates_c st)\<rparr>))"
  by (simp add: merge_group_absent on_GROUP_MERGED_absent_many on_GROUP_MERGED_keyed)

theorem merge_unknown_source_witness:
  "''P7'' \<notin> uniqueGroups four_pieces \<and> ''P7'' \<notin> uniqueGroups (pieceStates_c one_store)
   \<and> numGroups (pieceStates_c one_store) = 1 \<and> keyed_by_id (pieceStates_c one_store)
   \<and> merge_group ''P7'' ''P8'' (1, 1, 1) four_pieces = four_pieces
   \<and> on_GROUP_MERGED ''P7'' ''P8'' (1, 1, 1) one_store =
       Inr (one_store\<lparr>pieceStates_c := completion (pieceStates_c one_store)\<rparr>)"
  using merge_unknown_source [of "''P7''" four_pieces one_store "''P8''" "(1, 1, 1)"]
  by (simp add: four_groups one_groups one_keyed one_store_def numGroups_def)

text \<open>
  C9 (the source at the failing input). In a fresh runtime connection 1 sends
  \<^verbatim>\<open>MOVE_PIECE\<close> with the piece id \<^verbatim>\<open>toString\<close>, which the session of the four pieces does
  not hold. No default state is created: the session is as it was, and the delta sent to
  connection 2 carries no group id. For the new id \<^verbatim>\<open>P9\<close>, which names no inherited
  property, the default state is created.
\<close>

theorem move_piece_prototype_name:
  "map_of (pieceStates two_players) ''toString'' = None
   \<and> handle_MOVE_PIECE False \<lparr>connId = 1, readyState = OPEN\<rparr> ''toString'' (2, 3, 4) two_players =
       (two_players, False, [(2, PIECE_MOVED ''toString'' (2, 3, 4) None)])
   \<and> map_of (pieceStates two_players) ''P9'' = None
   \<and> map_of (pieceStates (fst (handle_MOVE_PIECE False \<lparr>connId = 1, readyState = OPEN\<rparr>
             ''P9'' (2, 3, 4) two_players))) ''P9'' =
       Some \<lparr>id_piece = ''P9'', position = (2, 3, 4), groupId = ''P9'', isSolved = False\<rparr>"
  by (simp add: handle_MOVE_PIECE_def Let_def move_piece_def pollutes_def group_of_def
        get_property_def inherited_names_def Object_prototype_def two_players_def
        four_pieces_def OPEN_def)

text \<open>
  C6 (the source at the failing input). Connection 1 sends the intents to a session whose
  players are the open connections 1 and 2. The \<^verbatim>\<open>GROUP_MERGED\<close> delta goes to both, the
  sender included, while \<^verbatim>\<open>PIECE_MOVED\<close> goes to connection 2 only.
\<close>

theorem merge_broadcast_echo:
  "map fst (snd (handle_MERGE_GROUP \<lparr>connId = 1, readyState = OPEN\<rparr>
                   ''P2'' ''P1'' (1, 0, 0) two_players)) = [1, 2]
   \<and> map fst (snd (snd (handle_MOVE_PIECE False \<lparr>connId = 1, readyState = OPEN\<rparr>
                   ''P2'' (1, 0, 0) two_players))) = [2]"
  by (simp add: handle_MERGE_GROUP_def handle_MOVE_PIECE_def two_players_def OPEN_def Let_def)

text \<open>
  C5 (as stated: while a piece of group G is dragged, a \<^verbatim>\<open>PIECE_MOVED\<close> for any piece of G
  is discarded). The guard compares piece ids, not groups: while P1 is dragged, a delta for
  P2 of the same group overwrites P2's position.
\<close>

theorem piece_moved_same_group_counterexample:
  "draggedPieceId dragging_store = Some ''P1''
   \<and> map_option groupId (map_of (pieceStates_c dragging_store) ''P1'') = Some ''P1''
   \<and> map_of (pieceStates_c dragging_store) ''P2'' =
       Some \<lparr>id_piece = ''P2'', position = (1, 12, 0), groupId = ''P1'', isSolved = False\<rparr>
   \<and> on_PIECE_MOVED ''P2'' (5, 5, 5) (Some ''P1'') dragging_store =
       Inr (dragging_store\<lparr>pieceStates_c :=
         [(''P1'', \<lparr>id_piece = ''P1'', position = (0, 12, 0), groupId = ''P1'', isSolved = False\<rparr>),
          (''P2'', \<lparr>id_piece = ''P2'', position = (5, 5, 5), groupId = ''P1'', isSolved = False\<rparr>)]\<rparr>)"
  by (simp add: dragging_store_def on_PIECE_MOVED_def get_property_def)

text \<open>
  C5 (amended). A client that is dragging piece P discards a \<^verbatim>\<open>PIECE_MOVED\<close> whose
  piece id is P: its state is unchanged. A \<^verbatim>\<open>PIECE_MOVED\<close> for any other piece, of the dragged
  group or not, overwrites the position and group id of that piece with the message's when
  the mirror holds the piece. It changes nothing when the mirror does not hold the id and
  the id names no property inherited from \<^verbatim>\<open>Object.prototype\<close>. Whenever the result is a
  mirror of piece states, all other pieces are unchanged.
\<close>

theorem piece_moved_while_dragging:
  "(draggedPieceId st = Some pieceId \<longrightarrow> on_PIECE_MOVED pieceId pos gid st = Inr st)
   \<and> (draggedPieceId st \<noteq> Some pieceId \<longrightarrow>
        (\<forall>p g. map_of (pieceStates_c st) pieceId = Some p \<and> gid = Some g \<longrightarrow>
           (\<exists>st'. on_PIECE_MOVED pieceId pos gid st = Inr st' \<and>
              map_of (pieceStates_c st') pieceId = Some (p\<lparr>position := pos, groupId := g\<rparr>)))
        \<and> (map_of (pieceStates_c st) pieceId = None \<and> pieceId \<notin> set Object_prototype \<longrightarrow>
             on_PIECE_MOVED pieceId pos gid st = Inr st)
        \<and> (\<forall>st' k. on_PIECE_MOVED pieceId pos gid st = Inr st' \<and> k \<noteq> pieceId \<longrightarrow>
             map_of (pieceStates_c st') k = map_of (pieceStates_c st) k))"
proof (intro conjI impI allI)
  assume "draggedPieceId st = Some pieceId"
  then show "on_PIECE_MOVED pieceId pos gid st = Inr st" by (simp add: on_PIECE_MOVED_def)
next
  fix p g
  assume "draggedPieceId st \<noteq> Some pieceId"
    and "map_of (pieceStates_c st) pieceId = Some p \<and> gid = Some g"
  then show "\<exists>st'. on_PIECE_MOVED pieceId pos gid st = Inr st' \<and>
              map_of (pieceStates_c st') pieceId = Some (p\<lparr>position := pos, groupId := g\<rparr>)"
    by (simp add: on_PIECE_MOVED_def get_property_Own update_conv')
next
  assume "draggedPieceId st \<noteq> Some pieceId"
    and "map_of (pieceStates_c st) pieceId = None \<and> pieceId \<notin> set Object_prototype"
  then show "on_PIECE_MOVED pieceId pos gid st = Inr st"
    by (simp add: on_PIECE_MOVED_def get_property_Absent)
next
  fix st' k
  assume nd: "draggedPieceId st \<noteq> Some pieceId"
    and run: "on_PIECE_MOVED pieceId pos gid st = Inr st' \<and> k \<noteq> pieceId"
  show "map_of (pieceStates_c st') k = map_of (pieceStates_c st) k"
  proof (cases "get_property Object_prototype (pieceStates_c st) pieceId")
    case (Own p)
    with nd run show ?thesis
      by (cases gid) (auto simp: on_PIECE_MOVED_def update_conv')
  next
    case Inherited
    with nd run show ?thesis by (simp add: on_PIECE_MOVED_def)
  next
    case Absent
    with nd run show ?thesis by (auto simp: on_PIECE_MOVED_def)
  qed
qed

theorem piece_moved_while_dragging_witness:
  "draggedPieceId dragging_store = Some ''P1''
   \<and> on_PIECE_MOVED ''P1'' (5, 5, 5) (Some ''P1'') dragging_store = Inr dragging_store
   \<and> draggedPieceId dragging_store \<noteq> Some ''P2''
   \<and> map_of (pieceStates_c dragging_store) ''P2'' =
       Some \<lparr>id_piece = ''P2'', position = (1, 12, 0), groupId = ''P1'', isSolved = False\<rparr>
   \<and> (\<exists>st'. on_PIECE_MOVED ''P2'' (5, 5, 5) (Some ''P1'') dragging_store = Inr st' \<and>
          map_of (pieceStates_c st') ''P2'' =
            Some \<lparr>id_piece = ''P2'', position = (5, 5, 5), groupId = ''P1'', isSolved = False\<rparr> \<and>
          map_of (pieceStates_c st') ''P1'' = map_of (pieceStates_c dragging_store) ''P1'')
   \<and> draggedPieceId dragging_store \<noteq> Some ''P9''
   \<and> map_of (pieceStates_c dragging_store) ''P9'' = None \<and> ''P9'' \<notin> set Object_prototype
   \<and> on_PIECE_MOVED ''P9'' (5, 5, 5) (Some ''P9'') dragging_store = Inr dragging_store"
proof -
  let ?P2 = "\<lparr>id_piece = ''P2'', position = (1, 12, 0), groupId = ''P1'', isSolved = False\<rparr>"
  have d: "draggedPieceId dragging_store = Some ''P1''"
    "draggedPieceId dragging_store \<noteq> Some ''P2''" "draggedPieceId dragging_store \<noteq> Some ''P9''"
    by (simp_all add: dragging_store_def)
  have h2: "map_of (pieceStates_c dragging_store) ''P2'' = Some ?P2"
    by (simp add: dragging_store_def)
  have h9: "map_of (pieceStates_c dragging_store) ''P9'' = None" "''P9'' \<notin> set Object_prototype"
    by (simp_all add: dragging_store_def Object_prototype_def)
  note T1 = piece_moved_while_dragging [of dragging_store "''P1''" "(5, 5, 5)" "Some ''P1''"]
  note T2 = piece_moved_while_dragging [of dragging_store "''P2''" "(5, 5, 5)" "Some ''P1''"]
  note T9 = piece_moved_while_dragging [of dragging_store "''P9''" "(5, 5, 5)" "Some ''P9''"]
  from T1 d(1) have a: "on_PIECE_MOVED ''P1'' (5, 5, 5) (Some ''P1'') dragging_store = Inr dragging_store"
    by (rule conjunct1 [THEN mp])
  from T2 [THEN conjunct2, THEN mp, OF d(2), THEN conjunct1, rule_format, of ?P2 "''P1''"] h2
  obtain st' where run: "on_PIECE_MOVED ''P2'' (5, 5, 5) (Some ''P1'') dragging_store = Inr st'"
    and at: "map_of (pieceStates_c st') ''P2'' = Some (?P2\<lparr>position := (5, 5, 5), groupId := ''P1''\<rparr>)"
    by blast
  from T2 [THEN conjunct2, THEN mp, OF d(2), THEN conjunct2, THEN conjunct2, rule_format,
           of st' "''P1''"] run
  have other: "map_of (pieceStates_c st') ''P1'' = map_of (pieceStates_c dragging_store) ''P1''"
    by simp
  from at have at': "map_of (pieceStates_c st') ''P2'' =
            Some \<lparr>id_piece = ''P2'', position = (5, 5, 5), groupId = ''P1'', isSolved = False\<rparr>"
    by simp
  from run at' other
  have b: "\<exists>st'. on_PIECE_MOVED ''P2'' (5, 5, 5) (Some ''P1'') dragging_store = Inr st' \<and>
          map_of (pieceStates_c st') ''P2'' =
            Some \<lparr>id_piece = ''P2'', position = (5, 5, 5), groupId = ''P1'', isSolved = False\<rparr> \<and>
          map_of (pieceStates_c st') ''P1'' = map_of (pieceStates_c dragging_store) ''P1''"
    by blast
  from T9 [THEN conjunct2, THEN mp, OF d(3), THEN conjunct2, THEN conjunct1] h9
  have c: "on_PIECE_MOVED ''P9'' (5, 5, 5) (Some ''P9'') dragging_store = Inr dragging_store"
    by simp
  from d(1) a d(2) h2 b d(3) h9 c show ?thesis by (intro conjI)
qed

text \<open>
  C7. During a drag the candidate is the group of the target of the first pair, in the
  order of the movers and then of the targets (pieces of another group), whose snap error
  is strictly below 4, and there is no candidate when no pair qualifies; later pairs have no
  influence. Group ids are piece ids, hence non-empty strings. With ideal offset \<open>(2, 0)\<close>,
  the placed offset \<open>(2.1, 0)\<close> is flagged and \<open>(10, 0)\<close> is not.
\<close>

theorem snap_candidate_detection:
  "(list_all (\<lambda>p. groupId p \<noteq> []) others \<longrightarrow>
      scan_movers regions movers others None =
        map_option (\<lambda>(m, t). groupId t) (first_snap_pair regions movers others))
   \<and> (list_all (\<lambda>p. groupId p \<noteq> []) (values_of (pieceStates_c st)) \<and>
       draggedPieceId st = Some d \<and> d \<noteq> [] \<and> map_of (pieceStates_c st) d = Some dragged \<longrightarrow>
       (\<exists>st' sent. dragMove delta st = Inr (st', sent) \<and>
          snapCandidateGroupId st' =
            map_option (\<lambda>(m, t). groupId t)
              (first_snap_pair (puzzleRegions st)
                 (filter (\<lambda>p. groupId p = groupId dragged) (values_of (pieceStates_c st')))
                 (filter (\<lambda>p. groupId p \<noteq> groupId dragged) (values_of (pieceStates_c st'))))))
   \<and> dragMove (0, 0, 0) (snap_store 2.1) =
       Inr (snap_store 2.1\<lparr>snapCandidateGroupId := Some ''P2''\<rparr>, [MOVE_PIECE ''P1'' (2.1, 12, 0)])
   \<and> dragMove (0, 0, 0) (snap_store 10) =
       Inr (snap_store 10\<lparr>snapCandidateGroupId := None\<rparr>, [MOVE_PIECE ''P1'' (10, 12, 0)])"
  using scan_movers_first [of others regions movers]
        dragMove_candidate [of st d dragged delta]
  by (simp only: snap_example_near snap_example_far) blast

theorem snap_candidate_detection_witness:
  "list_all (\<lambda>p. groupId p \<noteq> [])
     [\<lparr>id_piece = ''P2'', position = (0, 15, 0), groupId = ''P2'', isSolved = False\<rparr>]
   \<and> scan_movers (puzzleRegions (snap_store 2.1))
        [\<lparr>id_piece = ''P1'', position = (2.1, 12, 0), groupId = ''P1'', isSolved = False\<rparr>]
        [\<lparr>id_piece = ''P2'', position = (0, 15, 0), groupId = ''P2'', isSolved = False\<rparr>] None =
      Some ''P2''
   \<and> list_all (\<lambda>p. groupId p \<noteq> []) (values_of (pieceStates_c (snap_store 2.1)))
   \<and> draggedPieceId (snap_store 2.1) = Some ''P1'' \<and> ''P1'' \<noteq> []
   \<and> map_of (pieceStates_c (snap_store 2.1)) ''P1'' =
       Some \<lparr>id_piece = ''P1'', position = (2.1, 12, 0), groupId = ''P1'', isSolved = False\<rparr>
   \<and> (\<exists>st' sent. dragMove (0, 0, 0) (snap_store 2.1) = Inr (st', sent) \<and>
          snapCandidateGroupId st' =
            map_option (\<lambda>(m, t). groupId t)
              (first_snap_pair (puzzleRegions (snap_store 2.1))
                 (filter (\<lambda>p. groupId p = ''P1'') (values_of (pieceStates_c st')))
                 (filter (\<lambda>p. groupId p \<noteq> ''P1'') (values_of (pieceStates_c st')))))"
proof -
  let ?P1 = "\<lparr>id_piece = ''P1'', position = (2.1, 12, 0), groupId = ''P1'', isSolved = False\<rparr>"
  let ?P2 = "\<lparr>id_piece = ''P2'', position = (0, 15, 0), groupId = ''P2'', isSolved = False\<rparr>"
  have h1: "list_all (\<lambda>p. groupId p \<noteq> []) [?P2]" by simp
  have h2: "list_all (\<lambda>p. groupId p \<noteq> []) (values_of (pieceStates_c (snap_store 2.1)))"
    by (simp add: snap_store_def values_of_def)
  have h3: "draggedPieceId (snap_store 2.1) = Some ''P1''" by (simp add: snap_store_def)
  have h4: "map_of (pieceStates_c (snap_store 2.1)) ''P1'' = Some ?P1"
    by (simp add: snap_store_def)
  have h5: "''P1'' \<noteq> []" by simp
  note T = snap_candidate_detection
             [of "[?P2]" "puzzleRegions (snap_store 2.1)" "[?P1]" "snap_store 2.1" "''P1''" ?P1
                 "(0, 0, 0)"]
  from T h1 have "scan_movers (puzzleRegions (snap_store 2.1)) [?P1] [?P2] None =
      map_option (\<lambda>(m, t). groupId t)
        (first_snap_pair (puzzleRegions (snap_store 2.1)) [?P1] [?P2])" by blast
  then have a: "scan_movers (puzzleRegions (snap_store 2.1)) [?P1] [?P2] None = Some ''P2''"
    by (simp only: snap_store_first_pair) simp
  from T h2 h3 h4 h5
  have "\<exists>st' sent. dragMove (0, 0, 0) (snap_store 2.1) = Inr (st', sent) \<and>
          snapCandidateGroupId st' =
            map_option (\<lambda>(m, t). groupId t)
              (first_snap_pair (puzzleRegions (snap_store 2.1))
                 (filter (\<lambda>p. groupId p = groupId ?P1) (values_of (pieceStates_c st')))
                 (filter (\<lambda>p. groupId p \<noteq> groupId ?P1) (values_of (pieceStates_c st'))))"
    by blast
  then have b: "\<exists>st' sent. dragMove (0, 0, 0) (snap_store 2.1) = Inr (st', sent) \<and>
          snapCandidateGroupId st' =
            map_option (\<lambda>(m, t). groupId t)
              (first_snap_pair (puzzleRegions (snap_store 2.1))
                 (filter (\<lambda>p. groupId p = ''P1'') (values_of (pieceStates_c st')))
                 (filter (\<lambda>p. groupId p \<noteq> ''P1'') (values_of (pieceStates_c st'))))"
    by simp
  from h1 a h2 h3 h5 h4 b show ?thesis by (intro conjI)
qed

text \<open>
  C8. For every region list, whenever \<^verbatim>\<open>setPuzzleRegions\<close> returns, every region whose id
  has an entry in the server-supplied states has exactly that entry in the mirror. With
  region ids pairwise distinct and a non-empty scatter seed it does return, the mirror holds
  exactly the region ids, and a region gets a scattered spawn state only when the server has
  no entry for it; the scattered position is \<open>scatter_position\<close> of the seed and the region's
  index, nothing else.
\<close>

theorem rejoin_initial_mirror:
  "(\<forall>st'. setPuzzleRegions regions config currentServerStates st = Inr st' \<longrightarrow>
      (\<forall>r\<in>set regions. \<forall>s. map_of currentServerStates (id_region r) = Some s \<longrightarrow>
          map_of (pieceStates_c st') (id_region r) = Some s))
   \<and> (distinct (map id_region regions) \<and> scatterSeed config \<noteq> [] \<longrightarrow>
       (\<exists>st'. setPuzzleRegions regions config currentServerStates st = Inr st'
           \<and> puzzleRegions st' = regions
           \<and> fst ` set (pieceStates_c st') = id_region ` set regions
           \<and> (\<forall>i<length regions.
                 (\<forall>s. map_of currentServerStates (id_region (regions ! i)) = Some s \<longrightarrow>
                    map_of (pieceStates_c st') (id_region (regions ! i)) = Some s)
                 \<and> (map_of currentServerStates (id_region (regions ! i)) = None \<longrightarrow>
                    map_of (pieceStates_c st') (id_region (regions ! i)) =
                      Some \<lparr>id_piece = id_region (regions ! i),
                            position = scatter_position (scatterSeed config) i,
                            groupId = id_region (regions ! i), isSolved = False\<rparr>))))"
proof (intro conjI impI allI ballI)
  fix st' r s
  assume "setPuzzleRegions regions config currentServerStates st = Inr st'" "r \<in> set regions"
    "map_of currentServerStates (id_region r) = Some s"
  then show "map_of (pieceStates_c st') (id_region r) = Some s"
    by (rule setPuzzleRegions_server_entries)
next
  assume a: "distinct (map id_region regions) \<and> scatterSeed config \<noteq> []"
  then have a1: "distinct (map id_region regions)" and a2: "scatterSeed config \<noteq> []" by simp_all
  from setPuzzleRegions_result [OF a1 a2, of currentServerStates st]
  obtain st' where st': "setPuzzleRegions regions config currentServerStates st = Inr st'"
    "puzzleRegions st' = regions" "fst ` set (pieceStates_c st') = id_region ` set regions"
    and at: "\<forall>i<length regions. map_of (pieceStates_c st') (id_region (regions ! i)) =
                 Some (initial_state config currentServerStates i (regions ! i))"
    by blast
  from at have "\<forall>i<length regions.
                 (\<forall>s. map_of currentServerStates (id_region (regions ! i)) = Some s \<longrightarrow>
                    map_of (pieceStates_c st') (id_region (regions ! i)) = Some s)
                 \<and> (map_of currentServerStates (id_region (regions ! i)) = None \<longrightarrow>
                    map_of (pieceStates_c st') (id_region (regions ! i)) =
                      Some \<lparr>id_piece = id_region (regions ! i),
                            position = scatter_position (scatterSeed config) i,
                            groupId = id_region (regions ! i), isSolved = False\<rparr>)"
    by (simp add: initial_state_def)
  with st' show "\<exists>st'. setPuzzleRegions regions config currentServerStates st = Inr st'
           \<and> puzzleRegions st' = regions
           \<and> fst ` set (pieceStates_c st') = id_region ` set regions
           \<and> (\<forall>i<length regions.
                 (\<forall>s. map_of currentServerStates (id_region (regions ! i)) = Some s \<longrightarrow>
                    map_of (pieceStates_c st') (id_region (regions ! i)) = Some s)
                 \<and> (map_of currentServerStates (id_region (regions ! i)) = None \<longrightarrow>
                    map_of (pieceStates_c st') (id_region (regions ! i)) =
                      Some \<lparr>id_piece = id_region (regions ! i),
                            position = scatter_position (scatterSeed config) i,
                            groupId = id_region (regions ! i), isSolved = False\<rparr>))" by blast
qed

theorem rejoin_initial_mirror_witness:
  "distinct (map id_region two_regions) \<and> scatterSeed sample_config \<noteq> []
   \<and> map_of server_states ''P1'' = None
   \<and> map_of server_states ''P2'' =
       Some \<lparr>id_piece = ''P2'', position = (4, 0, 9), groupId = ''P2'', isSolved = False\<rparr>
   \<and> (\<exists>st'. setPuzzleRegions two_regions sample_config server_states empty_store = Inr st'
         \<and> map_of (pieceStates_c st') ''P2'' =
             Some \<lparr>id_piece = ''P2'', position = (4, 0, 9), groupId = ''P2'', isSolved = False\<rparr>
         \<and> map_of (pieceStates_c st') ''P1'' =
             Some \<lparr>id_piece = ''P1'', position = scatter_position [7, 42] 0,
                   groupId = ''P1'', isSolved = False\<rparr>)"
proof -
  have h1: "distinct (map id_region two_regions)" by (simp add: two_regions_def)
  have h2: "scatterSeed sample_config \<noteq> []" by (simp add: sample_config_def)
  have s1: "map_of server_states ''P1'' = None" by (simp add: server_states_def)
  have s2: "map_of server_states ''P2'' =
       Some \<lparr>id_piece = ''P2'', position = (4, 0, 9), groupId = ''P2'', isSolved = False\<rparr>"
    by (simp add: server_states_def)
  have r: "length two_regions = 2" "id_region (two_regions ! 0) = ''P1''"
    "id_region (two_regions ! Suc 0) = ''P2''" "scatterSeed sample_config = [7, 42]"
    by (simp_all add: two_regions_def sample_config_def)
  from rejoin_initial_mirror [of two_regions sample_config server_states empty_store,
         THEN conjunct2, THEN mp, OF conjI [OF h1 h2]]
  obtain st' where st': "setPuzzleRegions two_regions sample_config server_states empty_store = Inr st'"
    and at: "\<forall>i<length two_regions.
                 (\<forall>s. map_of server_states (id_region (two_regions ! i)) = Some s \<longrightarrow>
                    map_of (pieceStates_c st') (id_region (two_regions ! i)) = Some s)
                 \<and> (map_of server_states (id_region (two_regions ! i)) = None \<longrightarrow>
                    map_of (pieceStates_c st') (id_region (two_regions ! i)) =
                      Some \<lparr>id_piece = id_region (two_regions ! i),
                            position = scatter_position (scatterSeed sample_config) i,
                            groupId = id_region (two_regions ! i), isSolved = False\<rparr>)"
    by blast
  from at [rule_format, of 0] s1 have p1: "map_of (pieceStates_c st') ''P1'' =
             Some \<lparr>id_piece = ''P1'', position = scatter_position [7, 42] 0,
                   groupId = ''P1'', isSolved = False\<rparr>"
    by (simp add: r)
  have mem: "\<lparr>id_region = ''P2'', center_x = 0, center_y = 0\<rparr> \<in> set two_regions"
    by (simp add: two_regions_def)
  from rejoin_initial_mirror [of two_regions sample_config server_states empty_store,
         THEN conjunct1, rule_format, OF st' mem] s2
  have p2: "map_of (pieceStates_c st') ''P2'' =
             Some \<lparr>id_piece = ''P2'', position = (4, 0, 9), groupId = ''P2'', isSolved = False\<rparr>"
    by simp
  from h1 h2 s1 s2 st' p1 p2 show ?thesis by blast
qed




end
